theory Spec2Isabelle
  imports Complex_Main
begin

section \<open>Strings\<close>

text \<open>
  A JavaScript string is modelled as the list of its code units (\<open>string\<close>). Every
  string literal of the program is ASCII, and \<open>startsWith\<close>, \<open>slice\<close> and
  \<open>length\<close> count the same units on both sides, so the unit type does not matter
  for them. \<open>String.prototype.toUpperCase\<close> is not defined here: it is taken from the
  runtime (see \<open>env\<close> below), so that whatever holds of the program holds for every
  upper-casing of strings.
\<close>

text \<open>Upper-casing of the ASCII letters, every other unit left as it is: the upper-casing
  of the example runtime further below.\<close>

definition upperChar :: "char \<Rightarrow> char" where
  "upperChar c =
     (case map_of (zip ''abcdefghijklmnopqrstuvwxyz'' ''ABCDEFGHIJKLMNOPQRSTUVWXYZ'') c of
        Some u \<Rightarrow> u
      | None \<Rightarrow> c)"

definition asciiUpperCase :: "string \<Rightarrow> string" where
  "asciiUpperCase s = map upperChar s"

definition startsWith :: "string \<Rightarrow> string \<Rightarrow> bool" where
  "startsWith s p = (take (length p) s = p)"

text \<open>\<open>s.slice(n)\<close> for \<open>0 \<le> n\<close>: the string without its first \<open>n\<close> units.\<close>

definition slice :: "string \<Rightarrow> nat \<Rightarrow> string" where
  "slice s n = drop n s"

text \<open>\<open>s.split("/")\<close>: the pieces between the separators; the empty string gives one
  empty piece.\<close>

fun split :: "char \<Rightarrow> string \<Rightarrow> string list" where
  "split c [] = [[]]"
| "split c (x # xs) =
     (if x = c then [] # split c xs
      else (case split c xs of
              [] \<Rightarrow> [[x]]
            | y # ys \<Rightarrow> (x # y) # ys))"

section \<open>Configuration (config.ts)\<close>

datatype RuleAction = Reject | Silent | Empty

record Rule =
  resource :: string
  methods :: "string list"
  action :: RuleAction

record UpstreamConfig =
  url :: string
  bearer_token :: "string option"

record ServerConfig =
  port :: nat
  base_path :: "string option"

record TransformsConfig =
  inject_email_type :: "string option"

record Config =
  upstream :: UpstreamConfig
  server :: ServerConfig
  rules :: "Rule list"
  transforms :: TransformsConfig

text \<open>An optional string used as a condition (\<open>if (basePath)\<close>): \<open>undefined\<close> and the
  empty string are falsy.\<close>

fun truthyStr :: "string option \<Rightarrow> bool" where
  "truthyStr None = False"
| "truthyStr (Some s) = (s \<noteq> [])"

section \<open>JavaScript values (the JSON fragment)\<close>

text \<open>
  The numbers \<open>JSON.parse\<close> can return: a finite double other than minus zero (given
  here by its exact value), minus zero, or an infinity (from a literal that overflows,
  such as \<open>1e999\<close>). \<open>NaN\<close> is never the value of a JSON text.
\<close>

datatype number = Num rat | NegZero | PlusInfinity | MinusInfinity

text \<open>
  A parsed JSON value. An object is the list of its own properties in property order;
  it has no other properties, and its prototype is \<open>Object.prototype\<close>.
\<close>

datatype json =
    JNull
  | JBool bool
  | JNum number
  | JStr string
  | JArr "json list"
  | JObj "(string \<times> json) list"

text \<open>\<open>ToBoolean\<close>; \<open>None\<close> stands for \<open>undefined\<close>.\<close>

fun truthy :: "json option \<Rightarrow> bool" where
  "truthy None = False"
| "truthy (Some JNull) = False"
| "truthy (Some (JBool b)) = b"
| "truthy (Some (JNum n)) = (n \<noteq> Num 0 \<and> n \<noteq> NegZero)"
| "truthy (Some (JStr s)) = (s \<noteq> [])"
| "truthy (Some (JArr xs)) = True"
| "truthy (Some (JObj ps)) = True"

subsection \<open>Property keys and property order\<close>

definition isDigit :: "char \<Rightarrow> bool" where
  "isDigit c = ((48::nat) \<le> of_char c \<and> (of_char c :: nat) \<le> 57)"

definition digitsValue :: "string \<Rightarrow> nat" where
  "digitsValue s = foldl (\<lambda>a c. 10 * a + ((of_char c :: nat) - 48)) 0 s"

text \<open>An array index is a canonical numeric string whose value is below \<open>2^32 - 1\<close>.\<close>

definition isArrayIndex :: "string \<Rightarrow> bool" where
  "isArrayIndex k =
     (k \<noteq> [] \<and> list_all isDigit k \<and> (hd k = CHR ''0'' \<longrightarrow> length k = 1) \<and>
      digitsValue k < 4294967295)"

text \<open>\<open>String(n)\<close> for a non-negative integer \<open>n\<close>: its decimal digits.\<close>

fun String_nat :: "nat \<Rightarrow> string" where
  "String_nat n =
     (if n < 10 then [''0123456789'' ! n]
      else String_nat (n div 10) @ [''0123456789'' ! (n mod 10)])"

declare String_nat.simps [simp del]

text \<open>
  Own property keys are ordered: array indices first, in ascending order, then the other
  keys in the order of their creation. A new array-index key goes before the first
  property that is not a smaller array index.
\<close>

fun insertIndexKey ::
  "nat \<Rightarrow> string \<Rightarrow> json \<Rightarrow> (string \<times> json) list \<Rightarrow> (string \<times> json) list" where
  "insertIndexKey n k v [] = [(k, v)]"
| "insertIndexKey n k v (p # ps) =
     (if isArrayIndex (fst p) \<and> digitsValue (fst p) < n
      then p # insertIndexKey n k v ps
      else (k, v) # p # ps)"

fun replaceValue ::
  "string \<Rightarrow> json \<Rightarrow> (string \<times> json) list \<Rightarrow> (string \<times> json) list" where
  "replaceValue k v [] = []"
| "replaceValue k v (p # ps) =
     (if fst p = k then (k, v) # ps else p # replaceValue k v ps)"

text \<open>Defining or assigning the own data property \<open>k\<close>: an existing property keeps its
  place and takes the new value; a new one is added in property order.\<close>

definition setProp ::
  "(string \<times> json) list \<Rightarrow> string \<Rightarrow> json \<Rightarrow> (string \<times> json) list" where
  "setProp ps k v =
     (if k \<in> fst ` set ps then replaceValue k v ps
      else if isArrayIndex k then insertIndexKey (digitsValue k) k v ps
      else ps @ [(k, v)])"

text \<open>An object literal \<open>{k1: v1, ..., ...spread, ...}\<close> once its entries are listed
  in evaluation order: each entry defines its property on the object built so far.\<close>

definition objectLiteral :: "(string \<times> json) list \<Rightarrow> json" where
  "objectLiteral entries = JObj (foldl (\<lambda>ps (k, v). setProp ps k v) [] entries)"

text \<open>
  The entries \<open>...(typeof body === "object" && body !== null ? body : {})\<close> spreads:
  the own properties of an object, the elements of an array under their indices, nothing
  for any other value.
\<close>

fun spreadEntries :: "json \<Rightarrow> (string \<times> json) list" where
  "spreadEntries (JObj ps) = ps"
| "spreadEntries (JArr xs) = zip (map String_nat [0 ..< length xs]) xs"
| "spreadEntries v = []"

text \<open>
  Reading \<open>v[k]\<close> from a value other than \<open>null\<close>, for a key \<open>k\<close> that no prototype
  defines (the program reads \<open>"emails"\<close> and \<open>"type"\<close> only): an own property of an
  object, \<open>undefined\<close> otherwise.
\<close>

fun getNamed :: "json \<Rightarrow> string \<Rightarrow> json option" where
  "getNamed (JObj ps) k = map_of ps k"
| "getNamed v k = None"

text \<open>
  The assignment \<open>v[k] = x\<close> in strict mode (the program is an ES module), for \<open>v\<close>
  other than \<open>null\<close> and \<open>k\<close> not an array index: it sets the property of an object;
  on an array it creates a property that is not an element, which neither
  \<open>JSON.stringify\<close> nor this program reads; on a primitive value it throws a
  \<open>TypeError\<close> (\<open>None\<close>).
\<close>

fun assignNamed :: "json \<Rightarrow> string \<Rightarrow> json \<Rightarrow> json option" where
  "assignNamed (JObj ps) k x = Some (JObj (setProp ps k x))"
| "assignNamed (JArr xs) k x = Some (JArr xs)"
| "assignNamed v k x = None"

text \<open>
  The value \<open>v\<close> after the value it holds under the key \<open>k\<close> has been changed in
  place into \<open>x\<close>: the property keeps its position.
\<close>

fun withNamed :: "json \<Rightarrow> string \<Rightarrow> json \<Rightarrow> json" where
  "withNamed (JObj ps) k x = JObj (replaceValue k x ps)"
| "withNamed v k x = v"

section \<open>The runtime\<close>

text \<open>What a \<open>catch\<close> clause can receive: an \<open>Error\<close> object with its message, or any
  other thrown value.\<close>

datatype thrown = ErrorObj string | NonError

text \<open>The faults the engine raises by itself in this program; the text of their
  messages is the engine's.\<close>

datatype fault = ReadOfNull | AssignToPrimitive | StatusOutOfRange | NullBodyStatus

record UpstreamRequest =
  up_url :: string
  up_method :: string
  up_headers :: "(string \<times> string) list"
  up_body :: "string option"

record UpstreamResponse =
  res_status :: nat
  res_statusText :: string
  res_headers :: "(string \<times> string) list"
  res_body :: "string option"

datatype FetchResult = Rejects thrown | Resolves UpstreamResponse

text \<open>
  Everything the program takes from its runtime: \<open>String.prototype.toUpperCase\<close>;
  \<open>JSON.parse\<close> (\<open>None\<close> when it throws
  a \<open>SyntaxError\<close>) and \<open>JSON.stringify\<close>; the messages of engine faults; the value
  \<open>crypto.randomUUID()\<close> returns during the call at hand; the value the \<open>n\<close>-th
  evaluation of \<open>new Date().toISOString()\<close> returns during that call; and the global
  \<open>fetch\<close>, which resolves to the upstream's response or rejects.
\<close>

record env =
  toUpperCase :: "string \<Rightarrow> string"
  JSON_parse :: "string \<Rightarrow> json option"
  JSON_stringify :: "json \<Rightarrow> string"
  faultMessage :: "fault \<Rightarrow> string"
  randomUUID :: string
  toISOString :: "nat \<Rightarrow> string"
  fetch :: "UpstreamRequest \<Rightarrow> FetchResult"

section \<open>Resource matcher and rule engine (proxy.ts)\<close>

text \<open>The regular expression \<open>/^(\/[^/]+)/\<close>: a slash followed by the longest non-empty
  run of units other than a slash; the capture group is the whole match.\<close>

fun matchFirstSegment :: "string \<Rightarrow> string option" where
  "matchFirstSegment [] = None"
| "matchFirstSegment (c # cs) =
     (if c = CHR ''/'' \<and> takeWhile (\<lambda>d. d \<noteq> CHR ''/'') cs \<noteq> []
      then Some (c # takeWhile (\<lambda>d. d \<noteq> CHR ''/'') cs)
      else None)"

definition extractResource :: "string \<Rightarrow> string option \<Rightarrow> string option" where
  "extractResource pathname basePath =
     (if truthyStr basePath then
        (if \<not> startsWith pathname (the basePath) then None
         else matchFirstSegment (slice pathname (length (the basePath))))
      else matchFirstSegment pathname)"

definition isRequestToCollection :: "string \<Rightarrow> string option \<Rightarrow> bool" where
  "isRequestToCollection pathname basePath =
     (let path = (if truthyStr basePath then slice pathname (length (the basePath))
                  else pathname);
          segments = filter (\<lambda>s. s \<noteq> []) (split (CHR ''/'') path)
      in length segments \<le> 1)"

text \<open>The test of the loop body of \<open>matchRule\<close> for one rule.\<close>

definition ruleApplies :: "string \<Rightarrow> string \<Rightarrow> Rule \<Rightarrow> bool" where
  "ruleApplies res upperMethod rule =
     (resource rule = res \<and>
      (''*'' \<in> set (methods rule) \<or> upperMethod \<in> set (methods rule)))"

text \<open>The \<open>for ... of\<close> loop of \<open>matchRule\<close>: \<open>continue\<close> on another resource, \<open>return\<close>
  at the first rule whose methods fit.\<close>

fun scanRules :: "string \<Rightarrow> string \<Rightarrow> Rule list \<Rightarrow> Rule option" where
  "scanRules res upperMethod [] = None"
| "scanRules res upperMethod (rule # rest) =
     (if resource rule \<noteq> res then scanRules res upperMethod rest
      else if ''*'' \<in> set (methods rule) \<or> upperMethod \<in> set (methods rule)
      then Some rule
      else scanRules res upperMethod rest)"

definition matchRule ::
  "env \<Rightarrow> string \<Rightarrow> string \<Rightarrow> Rule list \<Rightarrow> string option \<Rightarrow> Rule option" where
  "matchRule E pathname method rs basePath =
     (case extractResource pathname basePath of
        None \<Rightarrow> None
      | Some res \<Rightarrow>
          (if res = [] then None
           else scanRules res (toUpperCase E method) rs))"

section \<open>Responses (proxy.ts)\<close>

record Response =
  status :: nat
  statusText :: string
  headers :: "(string \<times> string) list"
  body :: "string option"

definition SCIM_JSON :: string where
  "SCIM_JSON = ''application/scim+json''"

definition lowerChar :: "char \<Rightarrow> char" where
  "lowerChar c =
     (case map_of (zip ''ABCDEFGHIJKLMNOPQRSTUVWXYZ'' ''abcdefghijklmnopqrstuvwxyz'') c of
        Some l \<Rightarrow> l
      | None \<Rightarrow> c)"

definition byteLowercase :: "string \<Rightarrow> string" where
  "byteLowercase s = map lowerChar s"

text \<open>\<open>headers.get(name)\<close>: header names are ASCII tokens and compare without regard
  to the case of their letters (\<open>byteLowercase\<close> lower-cases the ASCII letters).\<close>

definition headers_get :: "(string \<times> string) list \<Rightarrow> string \<Rightarrow> string option" where
  "headers_get hs name =
     map_of (map (\<lambda>(k, v). (byteLowercase k, v)) hs) (byteLowercase name)"

definition headers_delete ::
  "(string \<times> string) list \<Rightarrow> string \<Rightarrow> (string \<times> string) list" where
  "headers_delete hs name =
     filter (\<lambda>(k, v). byteLowercase k \<noteq> byteLowercase name) hs"

text \<open>\<open>headers.set(name, value)\<close>: the first header of that name takes the value and
  the others go; without one, the header is appended.\<close>

fun headers_set ::
  "(string \<times> string) list \<Rightarrow> string \<Rightarrow> string \<Rightarrow> (string \<times> string) list" where
  "headers_set [] name v = [(byteLowercase name, v)]"
| "headers_set (h # hs) name v =
     (if byteLowercase (fst h) = byteLowercase name
      then (fst h, v) # headers_delete hs name
      else h # headers_set hs name v)"

text \<open>
  \<open>new Response(body, {status, statusText, headers})\<close>: a \<open>RangeError\<close> for a status
  outside 200..599, a \<open>TypeError\<close> for a body with a null-body status. (A string body
  without a content type would get \<open>text/plain\<close>; the program never builds one.)
\<close>

definition new_Response ::
  "env \<Rightarrow> string option \<Rightarrow> nat \<Rightarrow> string \<Rightarrow> (string \<times> string) list \<Rightarrow>
   thrown + Response" where
  "new_Response E b st stText hs =
     (if st < 200 \<or> 599 < st then Inl (ErrorObj (faultMessage E StatusOutOfRange))
      else if b \<noteq> None \<and> st \<in> {101, 103, 204, 205, 304}
      then Inl (ErrorObj (faultMessage E NullBodyStatus))
      else Inr \<lparr>status = st, statusText = stText, headers = hs, body = b\<rparr>)"

text \<open>The object literal \<open>scimError\<close> serialises.\<close>

definition errorBody :: "nat \<Rightarrow> string \<Rightarrow> json" where
  "errorBody st detail = objectLiteral
     [(''schemas'', JArr [JStr ''urn:ietf:params:scim:api:messages:2.0:Error'']),
      (''status'', JStr (String_nat st)),
      (''detail'', JStr detail)]"

definition scimError :: "env \<Rightarrow> nat \<Rightarrow> string \<Rightarrow> thrown + Response" where
  "scimError E st detail =
     new_Response E (Some (JSON_stringify E (errorBody st detail)))
       st [] [(''Content-Type'', SCIM_JSON)]"

text \<open>The object literal of the two empty list responses.\<close>

definition listResponse :: json where
  "listResponse = objectLiteral
     [(''schemas'', JArr [JStr ''urn:ietf:params:scim:api:messages:2.0:ListResponse'']),
      (''totalResults'', JNum (Num 0)),
      (''Resources'', JArr [])]"

text \<open>The two object literals named \<open>stub\<close> in \<open>buildSilentResponse\<close>: the one of the
  POST branch and the one of the PUT and PATCH branch.\<close>

definition createdStub :: "env \<Rightarrow> json \<Rightarrow> json" where
  "createdStub E b = objectLiteral
     ([(''schemas'', JArr [JStr ''urn:ietf:params:scim:schemas:core:2.0:User'']),
       (''id'', JStr (randomUUID E))]
      @ spreadEntries b
      @ [(''meta'', objectLiteral
            [(''resourceType'', JStr ''User''),
             (''created'', JStr (toISOString E 0)),
             (''lastModified'', JStr (toISOString E 1)),
             (''location'', JStr [])])])"

definition updatedStub :: "env \<Rightarrow> json \<Rightarrow> json" where
  "updatedStub E b = objectLiteral
     ([(''schemas'', JArr [JStr ''urn:ietf:params:scim:schemas:core:2.0:User'']),
       (''id'', JStr (randomUUID E))]
      @ spreadEntries b
      @ [(''meta'', objectLiteral
            [(''resourceType'', JStr ''User''),
             (''lastModified'', JStr (toISOString E 0))])])"

definition buildSilentResponse ::
  "env \<Rightarrow> string \<Rightarrow> json \<Rightarrow> string \<Rightarrow> string option \<Rightarrow> thrown + Response" where
  "buildSilentResponse E method b pathname basePath =
     (let upper = toUpperCase E method;
          isCollection = isRequestToCollection pathname basePath
      in
      if upper = ''DELETE'' then new_Response E None 204 [] []
      else if upper = ''POST'' then
        new_Response E (Some (JSON_stringify E (createdStub E b)))
          201 [] [(''Content-Type'', SCIM_JSON)]
      else if upper = ''PUT'' \<or> upper = ''PATCH'' then
        new_Response E (Some (JSON_stringify E (updatedStub E b)))
          200 [] [(''Content-Type'', SCIM_JSON)]
      else if isCollection then
        new_Response E (Some (JSON_stringify E listResponse))
          200 [] [(''Content-Type'', SCIM_JSON)]
      else
        new_Response E
          (Some (JSON_stringify E (objectLiteral
             [(''schemas'', JArr [JStr ''urn:ietf:params:scim:schemas:core:2.0:User'']),
              (''id'', JStr (randomUUID E))])))
          200 [] [(''Content-Type'', SCIM_JSON)])"

definition buildEmptyResponse ::
  "env \<Rightarrow> string \<Rightarrow> string \<Rightarrow> json \<Rightarrow> string option \<Rightarrow> thrown + Response" where
  "buildEmptyResponse E method pathname b basePath =
     (let upper = toUpperCase E method;
          isCollection = isRequestToCollection pathname basePath
      in
      if upper = ''DELETE'' then new_Response E None 204 [] []
      else if upper = ''POST'' \<or> upper = ''PUT'' \<or> upper = ''PATCH''
      then buildSilentResponse E method b pathname basePath
      else if isCollection then
        new_Response E (Some (JSON_stringify E listResponse))
          200 [] [(''Content-Type'', SCIM_JSON)]
      else scimError E 404 ''Resource not found'')"

section \<open>Body transformer (proxy.ts)\<close>

text \<open>
  \<open>applyTransforms\<close>. \<open>JSON.parse\<close> is inside the \<open>try\<close>; the reads and the
  assignment after it are not, so their faults leave the function: \<open>parsed["emails"]\<close>
  throws when the text is \<open>null\<close>, and \<open>first["type"] = emailType\<close> throws when the
  first element is a truthy primitive. The assignment changes the first element inside
  \<open>parsed\<close>, which is then serialised.
\<close>

definition applyTransforms :: "env \<Rightarrow> string \<Rightarrow> Config \<Rightarrow> thrown + string" where
  "applyTransforms E bodyText config =
     (let emailType = inject_email_type (transforms config) in
      if \<not> truthyStr emailType then Inr bodyText
      else
        (case JSON_parse E bodyText of
           None \<Rightarrow> Inr bodyText
         | Some parsed \<Rightarrow>
             (if parsed = JNull then Inl (ErrorObj (faultMessage E ReadOfNull))
              else
                (case getNamed parsed ''emails'' of
                   Some (JArr (first # others)) \<Rightarrow>
                     (if truthy (Some first) \<and> \<not> truthy (getNamed first ''type'')
                      then
                        (case assignNamed first ''type'' (JStr (the emailType)) of
                           None \<Rightarrow> Inl (ErrorObj (faultMessage E AssignToPrimitive))
                         | Some first' \<Rightarrow>
                             Inr (JSON_stringify E
                                    (withNamed parsed ''emails''
                                       (JArr (first' # others)))))
                      else Inr bodyText)
                 | _ \<Rightarrow> Inr bodyText))))"

section \<open>Forwarder (proxy.ts)\<close>

record Request =
  req_method :: string
  req_pathname :: string
  req_search :: string
  req_headers :: "(string \<times> string) list"
  req_body :: "string option"

text \<open>\<open>s.replace(/\/$/, "")\<close>: one slash at the very end goes.\<close>

definition stripTrailingSlash :: "string \<Rightarrow> string" where
  "stripTrailingSlash s = (if s \<noteq> [] \<and> last s = CHR ''/'' then butlast s else s)"

definition upstreamRequest :: "Request \<Rightarrow> Config \<Rightarrow> string option \<Rightarrow> UpstreamRequest" where
  "upstreamRequest req config bodyText =
     (let base = base_path (server config);
          path = (if truthyStr base \<and> startsWith (req_pathname req) (the base)
                  then slice (req_pathname req) (length (the base))
                  else req_pathname req);
          upstreamUrl = stripTrailingSlash (url (upstream config)) @ path @ req_search req;
          hs = headers_delete (headers_delete (req_headers req) ''host'') ''connection'';
          hs' = (if truthyStr (bearer_token (upstream config))
                 then headers_set hs ''Authorization''
                        (''Bearer '' @ the (bearer_token (upstream config)))
                 else hs)
      in \<lparr>up_url = upstreamUrl, up_method = req_method req, up_headers = hs',
          up_body = (case bodyText of Some t \<Rightarrow> Some t | None \<Rightarrow> req_body req)\<rparr>)"

text \<open>The \<open>catch\<close> clause of \<open>forwardRequest\<close>.\<close>

definition upstreamFailure :: "env \<Rightarrow> thrown \<Rightarrow> thrown + Response" where
  "upstreamFailure E err =
     (let message = (case err of ErrorObj m \<Rightarrow> m | NonError \<Rightarrow> ''upstream unreachable'')
      in scimError E 502 (''Upstream error: '' @ message))"

text \<open>
  \<open>forwardRequest\<close> returns its result together with the requests it has passed to the
  global \<open>fetch\<close>, in order. The \<open>try\<close> block holds the call of \<open>fetch\<close> and the
  construction of the pass-through response.
\<close>

definition forwardRequest ::
  "env \<Rightarrow> Request \<Rightarrow> Config \<Rightarrow> string option \<Rightarrow>
   (thrown + Response) \<times> UpstreamRequest list" where
  "forwardRequest E req config bodyText =
     (let call = upstreamRequest req config bodyText in
      case fetch E call of
        Rejects err \<Rightarrow> (upstreamFailure E err, [call])
      | Resolves upstreamRes \<Rightarrow>
          (case new_Response E (res_body upstreamRes) (res_status upstreamRes)
                  (res_statusText upstreamRes) (res_headers upstreamRes) of
             Inl err \<Rightarrow> (upstreamFailure E err, [call])
           | Inr r \<Rightarrow> (Inr r, [call])))"

section \<open>Request orchestrator (index.ts)\<close>

text \<open>What the handler has invoked, in order: the calls of \<open>applyTransforms\<close> and of
  \<open>forwardRequest\<close> with their body argument, and the requests sent to the upstream.\<close>

datatype invocation =
    Invoke_applyTransforms string
  | Invoke_forwardRequest "string option"
  | Upstream_fetch UpstreamRequest

text \<open>The JSON value the handler passes to the synthesizer: the parsed body, \<open>null\<close>
  without a body or when the body does not parse.\<close>

definition ruleBody :: "env \<Rightarrow> string option \<Rightarrow> json" where
  "ruleBody E bodyText =
     (if truthyStr bodyText
      then (case JSON_parse E (the bodyText) of None \<Rightarrow> JNull | Some v \<Rightarrow> v)
      else JNull)"

text \<open>
  The \<open>fetch\<close> handler given to \<open>Bun.serve\<close>. The request body, when there is one, has
  been read into \<open>req_body\<close>. The \<open>switch\<close> over the three actions is exhaustive. The
  result comes with the invocations made on the way; the lines written to the console are
  left out.
\<close>

definition serve_fetch ::
  "env \<Rightarrow> Config \<Rightarrow> Request \<Rightarrow> (thrown + Response) \<times> invocation list" where
  "serve_fetch E config req =
     (let bodyText = req_body req in
      case matchRule E (req_pathname req) (req_method req) (rules config)
             (base_path (server config)) of
        Some rule \<Rightarrow>
          (let b = ruleBody E bodyText
           in case action rule of
                Reject \<Rightarrow>
                  (scimError E 403
                     (''Operation '' @ req_method req @ '' '' @ resource rule @
                      '' is not permitted''), [])
              | Silent \<Rightarrow>
                  (buildSilentResponse E (req_method req) b (req_pathname req)
                     (base_path (server config)), [])
              | Empty \<Rightarrow>
                  (buildEmptyResponse E (req_method req) (req_pathname req) b
                     (base_path (server config)), []))
      | None \<Rightarrow>
          (if truthyStr bodyText then
             (case applyTransforms E (the bodyText) config of
                Inl err \<Rightarrow> (Inl err, [Invoke_applyTransforms (the bodyText)])
              | Inr bodyText' \<Rightarrow>
                  (let (res, calls) = forwardRequest E req config (Some bodyText')
                   in (res, Invoke_applyTransforms (the bodyText)
                           # Invoke_forwardRequest (Some bodyText')
                           # map Upstream_fetch calls)))
           else
             (let (res, calls) = forwardRequest E req config bodyText
              in (res, Invoke_forwardRequest bodyText # map Upstream_fetch calls))))"

section \<open>Round trips through JSON text\<close>

text \<open>
  What \<open>JSON.parse(JSON.stringify(v))\<close> is for a parsed value \<open>v\<close>: the same value,
  except that \<open>JSON.stringify\<close> writes minus zero as \<open>0\<close> and an infinity as
  \<open>null\<close>.
\<close>

fun normalise :: "json \<Rightarrow> json" where
  "normalise JNull = JNull"
| "normalise (JBool b) = JBool b"
| "normalise (JNum (Num r)) = JNum (Num r)"
| "normalise (JNum NegZero) = JNum (Num 0)"
| "normalise (JNum PlusInfinity) = JNull"
| "normalise (JNum MinusInfinity) = JNull"
| "normalise (JStr s) = JStr s"
| "normalise (JArr xs) = JArr (map normalise xs)"
| "normalise (JObj ps) = JObj (map (\<lambda>p. (fst p, normalise (snd p))) ps)"

text \<open>Keys in property order: a key that is an array index comes after smaller array
  indices only.\<close>

fun keysOrdered :: "string list \<Rightarrow> bool" where
  "keysOrdered [] = True"
| "keysOrdered [k] = True"
| "keysOrdered (k # k' # ks) =
     ((isArrayIndex k' \<longrightarrow> isArrayIndex k \<and> digitsValue k < digitsValue k') \<and>
      keysOrdered (k' # ks))"

text \<open>
  The values of a runtime whose numbers are those of \<open>N\<close> (for an engine, the doubles
  other than \<open>NaN\<close>, which are some of the values of \<open>number\<close>): every number inside
  is one of \<open>N\<close>, and every list of properties stands for an object of the language,
  with no key twice and the keys in property order.
\<close>

fun wellFormed :: "(number \<Rightarrow> bool) \<Rightarrow> json \<Rightarrow> bool" where
  "wellFormed N (JNum n) = N n"
| "wellFormed N (JArr xs) = (\<forall>x \<in> set xs. wellFormed N x)"
| "wellFormed N (JObj ps) =
     (distinct (map fst ps) \<and> keysOrdered (map fst ps) \<and>
      (\<forall>p \<in> set ps. wellFormed N (snd p)))"
| "wellFormed N v = True"

section \<open>The frame of the body transformation\<close>

text \<open>
  The specification's frame, as relations between a value and the value after the
  transformation: an email entry may differ in its member \<open>type\<close> only; an array may
  differ in that way in its first element only; a document may differ in that way in
  the array under \<open>emails\<close> only, with the same keys in the same order.
\<close>

fun sameExceptType :: "json \<Rightarrow> json \<Rightarrow> bool" where
  "sameExceptType (JObj fs) (JObj fs') =
     (filter (\<lambda>p. fst p \<noteq> ''type'') fs' = filter (\<lambda>p. fst p \<noteq> ''type'') fs)"
| "sameExceptType v v' = (v' = v)"

fun sameExceptFirstType :: "json \<Rightarrow> json \<Rightarrow> bool" where
  "sameExceptFirstType (JArr (f # os)) (JArr (f' # os')) = (os' = os \<and> sameExceptType f f')"
| "sameExceptFirstType v v' = (v' = v)"

fun sameExceptFirstEmailType :: "json \<Rightarrow> json \<Rightarrow> bool" where
  "sameExceptFirstEmailType (JObj ps) (JObj ps') =
     list_all2 (\<lambda>p p'. fst p' = fst p \<and>
                  (if fst p = ''emails'' then sameExceptFirstType (snd p) (snd p')
                   else snd p' = snd p)) ps ps'"
| "sameExceptFirstEmailType v v' = (v' = v)"

text \<open>
  What the idempotence of the transformation asks of \<open>JSON.parse\<close> and
  \<open>JSON.stringify\<close>, for a runtime whose numbers are those of \<open>N\<close>: parsing yields
  values of the runtime only, and the text of a value of the runtime parses back to that
  value up to \<open>normalise\<close>, which the text does not tell apart from the value. Nothing
  is asked about values that are not of the runtime, such as a number that is not a
  double for an engine.
\<close>

definition roundTrips :: "(number \<Rightarrow> bool) \<Rightarrow> env \<Rightarrow> bool" where
  "roundTrips N E =
     ((\<forall>x v. JSON_parse E x = Some v \<longrightarrow> wellFormed N v) \<and>
      (\<forall>v. wellFormed N v \<longrightarrow>
         JSON_parse E (JSON_stringify E v) = Some (normalise v) \<and>
         JSON_stringify E (normalise v) = JSON_stringify E v))"

section \<open>A small JSON codec\<close>

text \<open>
  A writer and a reader of compact JSON text, to build a concrete runtime from: one
  whose numbers are the integers, minus zero and the infinities. The writer escapes
  the double quote and the backslash in strings; of a number that is not of this runtime
  it writes the integer part. The reader reads text without white space and without
  fractions or exponents, takes the members of an object in the order of the text, and
  accepts a text only when the value it has read is a value of this runtime.
\<close>

fun demoNumbers :: "number \<Rightarrow> bool" where
  "demoNumbers (Num r) = (of_int \<lfloor>r\<rfloor> = r)"
| "demoNumbers n = True"

fun escapeJSON :: "string \<Rightarrow> string" where
  "escapeJSON [] = []"
| "escapeJSON (c # cs) =
     (if c = CHR 0x22 \<or> c = CHR 0x5C then CHR 0x5C # c # escapeJSON cs
      else c # escapeJSON cs)"

definition quoteJSON :: "string \<Rightarrow> string" where
  "quoteJSON s = CHR 0x22 # escapeJSON s @ [CHR 0x22]"

definition writeInt :: "int \<Rightarrow> string" where
  "writeInt i = (if i < 0 then CHR ''-'' # String_nat (nat (- i)) else String_nat (nat i))"

fun writeNumber :: "number \<Rightarrow> string" where
  "writeNumber (Num r) = writeInt \<lfloor>r\<rfloor>"
| "writeNumber NegZero = ''0''"
| "writeNumber PlusInfinity = ''null''"
| "writeNumber MinusInfinity = ''null''"

fun writeJSON :: "json \<Rightarrow> string"
  and writeElems :: "json list \<Rightarrow> string"
  and writeMembers :: "(string \<times> json) list \<Rightarrow> string" where
  "writeJSON JNull = ''null''"
| "writeJSON (JBool b) = (if b then ''true'' else ''false'')"
| "writeJSON (JNum n) = writeNumber n"
| "writeJSON (JStr s) = quoteJSON s"
| "writeJSON (JArr xs) = CHR ''['' # writeElems xs"
| "writeJSON (JObj ps) = CHR ''{'' # writeMembers ps"
| "writeElems [] = '']''"
| "writeElems (x # xs) =
     writeJSON x @ (if xs = [] then '']'' else CHR '','' # writeElems xs)"
| "writeMembers [] = ''}''"
| "writeMembers (p # ps) =
     quoteJSON (fst p) @ CHR '':'' # writeJSON (snd p) @
     (if ps = [] then ''}'' else CHR '','' # writeMembers ps)"

text \<open>The rest of a string literal after its opening quote: the string it denotes and
  the text after the closing quote.\<close>

fun readString :: "string \<Rightarrow> (string \<times> string) option" where
  "readString [] = None"
| "readString (c # cs) =
     (if c = CHR 0x22 then Some ([], cs)
      else if c = CHR 0x5C then
        (case cs of
           [] \<Rightarrow> None
         | d # ds \<Rightarrow>
             (if d = CHR 0x22 \<or> d = CHR 0x5C
              then map_option (\<lambda>(s, r). (d # s, r)) (readString ds)
              else None))
      else map_option (\<lambda>(s, r). (c # s, r)) (readString cs))"

definition readNumber :: "string \<Rightarrow> (number \<times> string) option" where
  "readNumber s =
     (let neg = (s \<noteq> [] \<and> hd s = CHR ''-'');
          s1 = (if neg then tl s else s);
          ds = takeWhile isDigit s1;
          r1 = dropWhile isDigit s1;
          p = (if neg then - int (digitsValue ds) else int (digitsValue ds))
      in if ds = [] then None
         else if neg \<and> digitsValue ds = 0 then Some (NegZero, r1)
         else Some (Num (of_int p), r1))"

definition stripPrefix :: "string \<Rightarrow> string \<Rightarrow> string option" where
  "stripPrefix p s = (if take (length p) s = p then Some (drop (length p) s) else None)"

text \<open>The reader proper. Its first argument bounds the number of nested calls; the
  length of the text is enough.\<close>

fun readValue :: "nat \<Rightarrow> string \<Rightarrow> (json \<times> string) option"
  and readElems :: "nat \<Rightarrow> string \<Rightarrow> (json list \<times> string) option"
  and readMembers :: "nat \<Rightarrow> string \<Rightarrow> ((string \<times> json) list \<times> string) option" where
  "readValue 0 s = None"
| "readValue (Suc n) [] = None"
| "readValue (Suc n) (c # cs) =
     (if c = CHR ''n'' then map_option (Pair JNull) (stripPrefix ''ull'' cs)
      else if c = CHR ''t'' then map_option (Pair (JBool True)) (stripPrefix ''rue'' cs)
      else if c = CHR ''f'' then map_option (Pair (JBool False)) (stripPrefix ''alse'' cs)
      else if c = CHR 0x22 then map_option (\<lambda>(s, r). (JStr s, r)) (readString cs)
      else if c = CHR ''['' then map_option (\<lambda>(xs, r). (JArr xs, r)) (readElems n cs)
      else if c = CHR ''{'' then map_option (\<lambda>(ps, r). (JObj ps, r)) (readMembers n cs)
      else map_option (\<lambda>(x, r). (JNum x, r)) (readNumber (c # cs)))"
| "readElems 0 s = None"
| "readElems (Suc n) s =
     (if s \<noteq> [] \<and> hd s = CHR '']'' then Some ([], tl s)
      else
        (case readValue n s of
           None \<Rightarrow> None
         | Some (v, r) \<Rightarrow>
             (if r \<noteq> [] \<and> hd r = CHR '']'' then Some ([v], tl r)
              else if r \<noteq> [] \<and> hd r = CHR '','' \<and> \<not> (tl r \<noteq> [] \<and> hd (tl r) = CHR '']'')
              then map_option (\<lambda>(vs, r'). (v # vs, r')) (readElems n (tl r))
              else None)))"
| "readMembers 0 s = None"
| "readMembers (Suc n) s =
     (if s \<noteq> [] \<and> hd s = CHR ''}'' then Some ([], tl s)
      else if s \<noteq> [] \<and> hd s = CHR 0x22 then
        (case readString (tl s) of
           None \<Rightarrow> None
         | Some (k, r0) \<Rightarrow>
             (if r0 \<noteq> [] \<and> hd r0 = CHR '':'' then
                (case readValue n (tl r0) of
                   None \<Rightarrow> None
                 | Some (v, r) \<Rightarrow>
                     (if r \<noteq> [] \<and> hd r = CHR ''}'' then Some ([(k, v)], tl r)
                      else if r \<noteq> [] \<and> hd r = CHR '','' \<and>
                              \<not> (tl r \<noteq> [] \<and> hd (tl r) = CHR ''}'')
                      then map_option (\<lambda>(ms, r'). ((k, v) # ms, r')) (readMembers n (tl r))
                      else None))
              else None))
      else None)"

definition readJSON :: "string \<Rightarrow> json option" where
  "readJSON s =
     (case readValue (Suc (length s)) s of
        Some (v, r) \<Rightarrow> (if r = [] \<and> wellFormed demoNumbers v then Some v else None)
      | None \<Rightarrow> None)"

text \<open>Where a value may end: at the end of the text or before a comma or a closing
  bracket.\<close>

definition ends :: "string \<Rightarrow> bool" where
  "ends r = (r = [] \<or> hd r \<in> {CHR '','', CHR '']'', CHR ''}''})"

text \<open>A runtime over this codec, with a fixed identifier and clock, for a given
  \<open>fetch\<close>.\<close>

definition demoEnv :: "(UpstreamRequest \<Rightarrow> FetchResult) \<Rightarrow> env" where
  "demoEnv f =
     \<lparr>toUpperCase = asciiUpperCase,
      JSON_parse = readJSON,
      JSON_stringify = writeJSON,
      faultMessage = (\<lambda>x. case x of
          ReadOfNull \<Rightarrow> ''null is not an object''
        | AssignToPrimitive \<Rightarrow> ''cannot create property''
        | StatusOutOfRange \<Rightarrow> ''status out of range''
        | NullBodyStatus \<Rightarrow> ''response with null body status cannot have body''),
      randomUUID = ''3f2c1e0a-5b6d-4c7e-8f90-a1b2c3d4e5f6'',
      toISOString = (\<lambda>n. ''2026-01-01T00:00:00.000Z''),
      fetch = f\<rparr>"

definition refusing :: "UpstreamRequest \<Rightarrow> FetchResult" where
  "refusing call = Rejects (ErrorObj ''connection refused'')"

section \<open>Example configuration\<close>

text \<open>The rule list of the repository's tests of \<open>matchRule\<close>.\<close>

definition exampleRules :: "Rule list" where
  "exampleRules =
     [\<lparr>resource = ''/Groups'', methods = [''*''], action = Empty\<rparr>,
      \<lparr>resource = ''/Users'', methods = [''DELETE''], action = Reject\<rparr>,
      \<lparr>resource = ''/Bulk'', methods = [''POST''], action = Silent\<rparr>]"

definition exampleConfig :: "Rule list \<Rightarrow> string option \<Rightarrow> string option \<Rightarrow> Config" where
  "exampleConfig rs basePath emailType =
     \<lparr>upstream = \<lparr>url = ''https://example.com'', bearer_token = None\<rparr>,
      server = \<lparr>port = 8080, base_path = basePath\<rparr>,
      rules = rs,
      transforms = \<lparr>inject_email_type = emailType\<rparr>\<rparr>"

definition exampleRequest :: "string \<Rightarrow> string \<Rightarrow> string option \<Rightarrow> Request" where
  "exampleRequest m p b =
     \<lparr>req_method = m, req_pathname = p, req_search = [],
      req_headers = [(''Host'', ''proxy.example''), (''Accept'', ''application/scim+json'')],
      req_body = b\<rparr>"


text \<open>The content type of a result, when it is a response that has one.\<close>

definition contentType :: "thrown + Response \<Rightarrow> string option" where
  "contentType res =
     (case res of Inl err \<Rightarrow> None | Inr r \<Rightarrow> headers_get (headers r) ''Content-Type'')"

section \<open>The example runtime\<close>

lemma demoEnv_fields:
  "toUpperCase (demoEnv f) = asciiUpperCase"
  "JSON_stringify (demoEnv f) = writeJSON" "JSON_parse (demoEnv f) = readJSON"
  "randomUUID (demoEnv f) = ''3f2c1e0a-5b6d-4c7e-8f90-a1b2c3d4e5f6''"
  "toISOString (demoEnv f) n = ''2026-01-01T00:00:00.000Z''"
  "fetch (demoEnv f) = f"
  by (simp_all add: demoEnv_def)

section \<open>Properties of the rule engine\<close>

lemma scanRules_find:
  "scanRules res m rs = find (ruleApplies res m) rs"
  by (induction rs) (auto simp: ruleApplies_def)

lemma extractResource_no_prefix:
  "b \<noteq> [] \<Longrightarrow> \<not> startsWith p b \<Longrightarrow> extractResource p (Some b) = None"
  by (simp add: extractResource_def)

text \<open>
  Claim C1. Whatever the upper-casing of the runtime is, \<open>matchRule\<close> returns a rule
  exactly when resource extraction yields a
  resource and some rule of the list has that very resource (equality of strings) and
  lists \<open>"*"\<close> or the upper-cased request method; the rule returned is then the one at
  the least such position of the list. It returns nothing when extraction yields no
  resource, and so nothing whenever a base path is configured and the pathname does not
  start with it.
\<close>

theorem matchRule_first_match:
  "(matchRule E pathname method rs basePath = Some r \<longleftrightarrow>
      (\<exists>res i. extractResource pathname basePath = Some res \<and>
         i < length rs \<and> rs ! i = r \<and>
         resource r = res \<and>
         (''*'' \<in> set (methods r) \<or> toUpperCase E method \<in> set (methods r)) \<and>
         (\<forall>j < i. \<not> (resource (rs ! j) = res \<and>
                      (''*'' \<in> set (methods (rs ! j)) \<or>
                       toUpperCase E method \<in> set (methods (rs ! j)))))))
   \<and> (extractResource pathname basePath = None \<longrightarrow>
        matchRule E pathname method rs basePath = None)
   \<and> (\<forall>b. basePath = Some b \<and> \<not> startsWith pathname b \<longrightarrow>
        matchRule E pathname method rs basePath = None)"
proof (intro conjI)
  have nonempty: "res \<noteq> []" if "extractResource pathname basePath = Some res" for res
  proof -
    have "matchFirstSegment s = Some t \<Longrightarrow> t \<noteq> []" for s t
      by (cases s) (auto split: if_splits)
    with that show ?thesis
      by (auto simp: extractResource_def split: if_splits)
  qed
  show "matchRule E pathname method rs basePath = Some r \<longleftrightarrow>
      (\<exists>res i. extractResource pathname basePath = Some res \<and>
         i < length rs \<and> rs ! i = r \<and>
         resource r = res \<and>
         (''*'' \<in> set (methods r) \<or> toUpperCase E method \<in> set (methods r)) \<and>
         (\<forall>j < i. \<not> (resource (rs ! j) = res \<and>
                      (''*'' \<in> set (methods (rs ! j)) \<or>
                       toUpperCase E method \<in> set (methods (rs ! j))))))"
  proof (cases "extractResource pathname basePath")
    case None
    then show ?thesis by (simp add: matchRule_def)
  next
    case (Some res)
    then have "matchRule E pathname method rs basePath
                 = find (ruleApplies res (toUpperCase E method)) rs"
      using nonempty [OF Some] by (simp add: matchRule_def scanRules_find)
    then show ?thesis
      using Some by (auto simp: find_Some_iff ruleApplies_def)
  qed
  show "extractResource pathname basePath = None \<longrightarrow>
        matchRule E pathname method rs basePath = None"
    by (simp add: matchRule_def)
  show "\<forall>b. basePath = Some b \<and> \<not> startsWith pathname b \<longrightarrow>
        matchRule E pathname method rs basePath = None"
  proof (intro allI impI)
    fix b assume b: "basePath = Some b \<and> \<not> startsWith pathname b"
    then have "b \<noteq> []" by (auto simp: startsWith_def)
    with b show "matchRule E pathname method rs basePath = None"
      by (simp add: matchRule_def extractResource_no_prefix)
  qed
qed

theorem matchRule_first_match_witness:
  "matchRule (demoEnv refusing) ''/scim/v2/Users/abc'' ''delete'' exampleRules (Some ''/scim/v2'')
     = Some \<lparr>resource = ''/Users'', methods = [''DELETE''], action = Reject\<rparr>
   \<and> matchRule (demoEnv refusing) ''/other/Groups'' ''GET'' exampleRules (Some ''/scim/v2'') = None"
proof
  have ex: "extractResource ''/scim/v2/Users/abc'' (Some ''/scim/v2'') = Some ''/Users''"
    by (simp add: extractResource_def startsWith_def slice_def)
  have up: "toUpperCase (demoEnv refusing) ''delete'' = ''DELETE''"
    by (simp add: demoEnv_fields asciiUpperCase_def upperChar_def)
  have "\<exists>res i. extractResource ''/scim/v2/Users/abc'' (Some ''/scim/v2'') = Some res \<and>
         i < length exampleRules \<and>
         exampleRules ! i = \<lparr>resource = ''/Users'', methods = [''DELETE''], action = Reject\<rparr> \<and>
         resource \<lparr>resource = ''/Users'', methods = [''DELETE''], action = Reject\<rparr> = res \<and>
         (''*'' \<in> set (methods \<lparr>resource = ''/Users'', methods = [''DELETE''], action = Reject\<rparr>)
          \<or> toUpperCase (demoEnv refusing) ''delete''
              \<in> set (methods \<lparr>resource = ''/Users'', methods = [''DELETE''], action = Reject\<rparr>)) \<and>
         (\<forall>j < i. \<not> (resource (exampleRules ! j) = res \<and>
                      (''*'' \<in> set (methods (exampleRules ! j)) \<or>
                       toUpperCase (demoEnv refusing) ''delete'' \<in> set (methods (exampleRules ! j)))))"
    by (rule exI [of _ "''/Users''"], rule exI [of _ "Suc 0"])
       (simp add: ex up exampleRules_def)
  then show "matchRule (demoEnv refusing) ''/scim/v2/Users/abc'' ''delete'' exampleRules (Some ''/scim/v2'')
     = Some \<lparr>resource = ''/Users'', methods = [''DELETE''], action = Reject\<rparr>"
    using matchRule_first_match
            [of "demoEnv refusing" "''/scim/v2/Users/abc''" "''delete''" exampleRules
                "Some ''/scim/v2''"
                "\<lparr>resource = ''/Users'', methods = [''DELETE''], action = Reject\<rparr>"]
    by blast
  have "\<not> startsWith ''/other/Groups'' ''/scim/v2''"
    by (simp add: startsWith_def)
  then show "matchRule (demoEnv refusing) ''/other/Groups'' ''GET'' exampleRules (Some ''/scim/v2'') = None"
    using matchRule_first_match
            [of "demoEnv refusing" "''/other/Groups''" "''GET''" exampleRules
                "Some ''/scim/v2''"]
    by blast
qed

section \<open>Properties of the synthesized responses\<close>

lemma objectLiteral_three:
  "\<not> isArrayIndex k1 \<Longrightarrow> \<not> isArrayIndex k2 \<Longrightarrow> \<not> isArrayIndex k3 \<Longrightarrow>
   k1 \<noteq> k2 \<Longrightarrow> k1 \<noteq> k3 \<Longrightarrow> k2 \<noteq> k3 \<Longrightarrow>
   objectLiteral [(k1, v1), (k2, v2), (k3, v3)] = JObj [(k1, v1), (k2, v2), (k3, v3)]"
  by (simp add: objectLiteral_def setProp_def)

lemma objectLiteral_two:
  "\<not> isArrayIndex k1 \<Longrightarrow> \<not> isArrayIndex k2 \<Longrightarrow> k1 \<noteq> k2 \<Longrightarrow>
   objectLiteral [(k1, v1), (k2, v2)] = JObj [(k1, v1), (k2, v2)]"
  by (simp add: objectLiteral_def setProp_def)

lemma not_index_literals:
  "\<not> isArrayIndex ''schemas''" "\<not> isArrayIndex ''status''" "\<not> isArrayIndex ''detail''"
  "\<not> isArrayIndex ''totalResults''" "\<not> isArrayIndex ''Resources''"
  "\<not> isArrayIndex ''id''" "\<not> isArrayIndex ''meta''" "\<not> isArrayIndex ''type''"
  by (simp_all add: isArrayIndex_def isDigit_def)

lemma listResponse_value:
  "listResponse = JObj
     [(''schemas'', JArr [JStr ''urn:ietf:params:scim:api:messages:2.0:ListResponse'']),
      (''totalResults'', JNum (Num 0)),
      (''Resources'', JArr [])]"
  unfolding listResponse_def by (rule objectLiteral_three) (simp_all add: not_index_literals)

lemma errorBody_value:
  "errorBody st detail = JObj
     [(''schemas'', JArr [JStr ''urn:ietf:params:scim:api:messages:2.0:Error'']),
      (''status'', JStr (String_nat st)),
      (''detail'', JStr detail)]"
  unfolding errorBody_def by (rule objectLiteral_three) (simp_all add: not_index_literals)

lemma scimError_response:
  "200 \<le> st \<Longrightarrow> st \<le> 599 \<Longrightarrow> st \<notin> {204, 205, 304} \<Longrightarrow>
   scimError E st detail =
     Inr \<lparr>status = st, statusText = [],
          headers = [(''Content-Type'', ''application/scim+json'')],
          body = Some (JSON_stringify E (errorBody st detail))\<rparr>"
  by (simp add: scimError_def new_Response_def SCIM_JSON_def)

lemma String_nat_codes:
  "String_nat 403 = ''403''" "String_nat 404 = ''404''" "String_nat 502 = ''502''"
  by (simp_all add: String_nat.simps)

lemma headers_get_scim:
  "headers_get [(''Content-Type'', v)] ''Content-Type'' = Some v"
  by (simp add: headers_get_def)

text \<open>
  Claim C3. For a GET request, \<open>buildEmptyResponse\<close> answers a collection path with
  status 200 and the list envelope with \<open>totalResults\<close> 0 and an empty \<open>Resources\<close>
  array, and a singleton path (one that is not a collection path) with status 404 and
  the error envelope whose detail is "Resource not found".
\<close>

theorem buildEmptyResponse_GET:
  "toUpperCase E method = ''GET'' \<Longrightarrow>
   buildEmptyResponse E method pathname b basePath =
     (if isRequestToCollection pathname basePath
      then Inr \<lparr>status = 200, statusText = [],
                headers = [(''Content-Type'', ''application/scim+json'')],
                body = Some (JSON_stringify E (JObj
                  [(''schemas'',
                    JArr [JStr ''urn:ietf:params:scim:api:messages:2.0:ListResponse'']),
                   (''totalResults'', JNum (Num 0)),
                   (''Resources'', JArr [])]))\<rparr>
      else Inr \<lparr>status = 404, statusText = [],
                headers = [(''Content-Type'', ''application/scim+json'')],
                body = Some (JSON_stringify E (JObj
                  [(''schemas'', JArr [JStr ''urn:ietf:params:scim:api:messages:2.0:Error'']),
                   (''status'', JStr ''404''),
                   (''detail'', JStr ''Resource not found'')]))\<rparr>)"
  by (simp add: buildEmptyResponse_def Let_def scimError_response errorBody_value
        String_nat_codes listResponse_value new_Response_def SCIM_JSON_def)

theorem buildEmptyResponse_GET_witness:
  \<open>buildEmptyResponse (demoEnv refusing) ''GET'' ''/Groups/xyz'' JNull None =
     Inr \<lparr>status = 404, statusText = [],
          headers = [(''Content-Type'', ''application/scim+json'')],
          body = Some (''{"schemas":["urn:ietf:params:scim:api:messages:2.0:Error"],'' @
                       ''"status":"404","detail":"Resource not found"}'')\<rparr>
   \<and> buildEmptyResponse (demoEnv refusing) ''GET'' ''/scim/v2/Groups'' JNull (Some ''/scim/v2'') =
     Inr \<lparr>status = 200, statusText = [],
          headers = [(''Content-Type'', ''application/scim+json'')],
          body = Some (''{"schemas":["urn:ietf:params:scim:api:messages:2.0:ListResponse"],'' @
                       ''"totalResults":0,"Resources":[]}'')\<rparr>\<close>
proof -
  have up: "toUpperCase (demoEnv refusing) ''GET'' = ''GET''"
    by (simp add: demoEnv_fields asciiUpperCase_def upperChar_def)
  have single: "\<not> isRequestToCollection ''/Groups/xyz'' None"
    by (simp add: isRequestToCollection_def)
  have coll: "isRequestToCollection ''/scim/v2/Groups'' (Some ''/scim/v2'')"
    by (simp add: isRequestToCollection_def slice_def)
  show ?thesis
    using buildEmptyResponse_GET [OF up, of "''/Groups/xyz''" JNull None]
          buildEmptyResponse_GET [OF up, of "''/scim/v2/Groups''" JNull "Some ''/scim/v2''"]
    by (simp add: single coll demoEnv_def quoteJSON_def String_nat.simps writeInt_def)
qed

text \<open>The synthesizer never throws.\<close>

lemma buildSilentResponse_returns:
  "\<exists>r. buildSilentResponse E method b pathname basePath = Inr r"
  by (simp add: buildSilentResponse_def Let_def new_Response_def)

lemma buildEmptyResponse_returns:
  "\<exists>r. buildEmptyResponse E m path b basePath = Inr r"
  using buildSilentResponse_returns [of E m b path basePath]
  by (simp add: buildEmptyResponse_def Let_def new_Response_def scimError_response)

text \<open>
  Claim C4, as stated, fails: the response to a DELETE is built without headers, so it
  carries no content type.
\<close>

theorem delete_response_without_content_type:
  "buildSilentResponse (demoEnv refusing) ''DELETE'' JNull ''/Users/abc'' None
     = Inr \<lparr>status = 204, statusText = [], headers = [], body = None\<rparr>
   \<and> contentType (buildSilentResponse (demoEnv refusing) ''DELETE'' JNull ''/Users/abc'' None)
       = None
   \<and> buildEmptyResponse (demoEnv refusing) ''DELETE'' ''/Groups/abc'' JNull None
     = Inr \<lparr>status = 204, statusText = [], headers = [], body = None\<rparr>
   \<and> contentType (buildEmptyResponse (demoEnv refusing) ''DELETE'' ''/Groups/abc'' JNull None)
       \<noteq> Some ''application/scim+json''"
  by (simp add: buildSilentResponse_def buildEmptyResponse_def Let_def new_Response_def
        contentType_def headers_get_def demoEnv_fields asciiUpperCase_def upperChar_def)

text \<open>
  Claim C4, amended. Every response \<open>scimError\<close> returns, and every result of
  \<open>buildSilentResponse\<close> and \<open>buildEmptyResponse\<close> for a method other than DELETE,
  carries the content type \<open>application/scim+json\<close>; for DELETE both return status
  204 with no body and no header at all.
\<close>

theorem synthesized_content_type:
  "(scimError E st detail = Inr r \<longrightarrow>
      contentType (scimError E st detail) = Some ''application/scim+json'')
   \<and> (toUpperCase E method \<noteq> ''DELETE'' \<longrightarrow>
      contentType (buildSilentResponse E method b pathname basePath)
        = Some ''application/scim+json''
      \<and> contentType (buildEmptyResponse E method pathname b basePath)
        = Some ''application/scim+json'')
   \<and> (toUpperCase E method = ''DELETE'' \<longrightarrow>
      buildSilentResponse E method b pathname basePath
        = Inr \<lparr>status = 204, statusText = [], headers = [], body = None\<rparr>
      \<and> buildEmptyResponse E method pathname b basePath
        = Inr \<lparr>status = 204, statusText = [], headers = [], body = None\<rparr>)"
proof (intro conjI impI)
  assume "scimError E st detail = Inr r"
  then show "contentType (scimError E st detail) = Some ''application/scim+json''"
    by (auto simp: scimError_def new_Response_def contentType_def headers_get_scim
          SCIM_JSON_def split: if_splits)
next
  assume m: "toUpperCase E method \<noteq> ''DELETE''"
  then show silent: "contentType (buildSilentResponse E method b pathname basePath)
        = Some ''application/scim+json''"
    by (simp add: buildSilentResponse_def Let_def new_Response_def contentType_def
          headers_get_scim SCIM_JSON_def)
  have "contentType (scimError E 404 ''Resource not found'') = Some ''application/scim+json''"
    by (simp add: scimError_response contentType_def headers_get_scim)
  with m silent show "contentType (buildEmptyResponse E method pathname b basePath)
        = Some ''application/scim+json''"
    by (simp add: buildEmptyResponse_def Let_def new_Response_def contentType_def
          headers_get_scim SCIM_JSON_def)
next
  assume "toUpperCase E method = ''DELETE''"
  then show "buildSilentResponse E method b pathname basePath
        = Inr \<lparr>status = 204, statusText = [], headers = [], body = None\<rparr>"
    and "buildEmptyResponse E method pathname b basePath
        = Inr \<lparr>status = 204, statusText = [], headers = [], body = None\<rparr>"
    by (simp_all add: buildSilentResponse_def buildEmptyResponse_def Let_def new_Response_def)
qed

theorem synthesized_content_type_witness:
  "contentType (scimError (demoEnv refusing) 403 ''Forbidden'') = Some ''application/scim+json''
   \<and> contentType (buildSilentResponse (demoEnv refusing) ''post''
        (JObj [(''displayName'', JStr ''Test'')]) ''/Users'' None)
       = Some ''application/scim+json''
   \<and> contentType (buildEmptyResponse (demoEnv refusing) ''post''
        ''/Users'' (JObj [(''displayName'', JStr ''Test'')]) None)
       = Some ''application/scim+json''
   \<and> buildSilentResponse (demoEnv refusing) ''delete'' JNull ''/Users/abc'' None
       = Inr \<lparr>status = 204, statusText = [], headers = [], body = None\<rparr>"
proof -
  have err: "scimError (demoEnv refusing) 403 ''Forbidden''
      = Inr \<lparr>status = 403, statusText = [],
             headers = [(''Content-Type'', ''application/scim+json'')],
             body = Some (JSON_stringify (demoEnv refusing) (errorBody 403 ''Forbidden''))\<rparr>"
    by (simp add: scimError_response)
  have post: "toUpperCase (demoEnv refusing) ''post'' \<noteq> ''DELETE''"
    by (simp add: demoEnv_fields asciiUpperCase_def upperChar_def)
  have del: "toUpperCase (demoEnv refusing) ''delete'' = ''DELETE''"
    by (simp add: demoEnv_fields asciiUpperCase_def upperChar_def)
  show ?thesis
    using synthesized_content_type [of "demoEnv refusing" 403 "''Forbidden''" _ "''post''"
            "JObj [(''displayName'', JStr ''Test'')]" "''/Users''" None]
          synthesized_content_type [of "demoEnv refusing" 403 "''Forbidden''" _ "''delete''"
            JNull "''/Users/abc''" None]
          err post del
    by simp
qed

section \<open>Properties of the forwarder\<close>

text \<open>The detail the \<open>catch\<close> clause of \<open>forwardRequest\<close> reports.\<close>

lemma upstreamFailure_response:
  "upstreamFailure E err =
     Inr \<lparr>status = 502, statusText = [],
          headers = [(''Content-Type'', ''application/scim+json'')],
          body = Some (JSON_stringify E (JObj
            [(''schemas'', JArr [JStr ''urn:ietf:params:scim:api:messages:2.0:Error'']),
             (''status'', JStr ''502''),
             (''detail'', JStr (''Upstream error: '' @
                (case err of ErrorObj m \<Rightarrow> m | NonError \<Rightarrow> ''upstream unreachable'')))]))\<rparr>"
  by (simp add: upstreamFailure_def Let_def scimError_response errorBody_value String_nat_codes)

text \<open>
  Claim C5. When the \<open>fetch\<close> of the upstream request rejects, \<open>forwardRequest\<close> returns
  a response (it does not throw): status 502, content type \<open>application/scim+json\<close>, and
  the error envelope whose detail is "Upstream error: " followed by the message of the
  error (by "upstream unreachable" when the thrown value is not an \<open>Error\<close>). That one
  request is all it has sent to the upstream: there is no second attempt.
\<close>

theorem forwardRequest_upstream_failure:
  "fetch E (upstreamRequest req config bodyText) = Rejects err \<Longrightarrow>
   forwardRequest E req config bodyText =
     (Inr \<lparr>status = 502, statusText = [],
           headers = [(''Content-Type'', ''application/scim+json'')],
           body = Some (JSON_stringify E (JObj
             [(''schemas'', JArr [JStr ''urn:ietf:params:scim:api:messages:2.0:Error'']),
              (''status'', JStr ''502''),
              (''detail'', JStr (''Upstream error: '' @
                 (case err of ErrorObj m \<Rightarrow> m | NonError \<Rightarrow> ''upstream unreachable'')))]))\<rparr>,
      [upstreamRequest req config bodyText])"
  by (simp add: forwardRequest_def Let_def upstreamFailure_response)

theorem forwardRequest_upstream_failure_witness:
  \<open>forwardRequest (demoEnv refusing) (exampleRequest ''GET'' ''/scim/v2/Users'' None)
     (exampleConfig exampleRules (Some ''/scim/v2'') None) None =
     (Inr \<lparr>status = 502, statusText = [],
           headers = [(''Content-Type'', ''application/scim+json'')],
           body = Some (''{"schemas":["urn:ietf:params:scim:api:messages:2.0:Error"],'' @
                        ''"status":"502","detail":"Upstream error: connection refused"}'')\<rparr>,
      [\<lparr>up_url = ''https://example.com/Users'', up_method = ''GET'',
        up_headers = [(''Accept'', ''application/scim+json'')], up_body = None\<rparr>])\<close>
proof -
  have rej: "fetch (demoEnv refusing)
               (upstreamRequest (exampleRequest ''GET'' ''/scim/v2/Users'' None)
                  (exampleConfig exampleRules (Some ''/scim/v2'') None) None)
             = Rejects (ErrorObj ''connection refused'')"
    by (simp add: demoEnv_def refusing_def)
  have call: "upstreamRequest (exampleRequest ''GET'' ''/scim/v2/Users'' None)
                  (exampleConfig exampleRules (Some ''/scim/v2'') None) None
      = \<lparr>up_url = ''https://example.com/Users'', up_method = ''GET'',
         up_headers = [(''Accept'', ''application/scim+json'')], up_body = None\<rparr>"
    by (simp add: upstreamRequest_def exampleRequest_def exampleConfig_def Let_def
          startsWith_def slice_def stripTrailingSlash_def headers_delete_def
          byteLowercase_def lowerChar_def)
  show ?thesis
    using forwardRequest_upstream_failure [OF rej]
    by (simp add: call demoEnv_def quoteJSON_def)
qed

section \<open>Properties of the orchestrator\<close>

text \<open>
  Claim C8. When the rule that matches a request has the action reject, the handler
  answers with status 403 and the error envelope whose detail is "Operation", the
  request method as received, the resource of the rule and "is not permitted"; nothing
  else is invoked.
\<close>

theorem reject_response:
  "matchRule E (req_pathname req) (req_method req) (rules config)
     (base_path (server config)) = Some rule \<Longrightarrow>
   action rule = Reject \<Longrightarrow>
   serve_fetch E config req =
     (Inr \<lparr>status = 403, statusText = [],
           headers = [(''Content-Type'', ''application/scim+json'')],
           body = Some (JSON_stringify E (JObj
             [(''schemas'', JArr [JStr ''urn:ietf:params:scim:api:messages:2.0:Error'']),
              (''status'', JStr ''403''),
              (''detail'', JStr (''Operation '' @ req_method req @ '' '' @ resource rule @
                                 '' is not permitted''))]))\<rparr>,
      [])"
  by (simp add: serve_fetch_def Let_def scimError_response errorBody_value String_nat_codes)

theorem reject_response_witness:
  \<open>serve_fetch (demoEnv refusing)
     (exampleConfig [\<lparr>resource = ''/Users'', methods = [''DELETE''], action = Reject\<rparr>] None None)
     (exampleRequest ''DELETE'' ''/Users/abc'' None) =
     (Inr \<lparr>status = 403, statusText = [],
           headers = [(''Content-Type'', ''application/scim+json'')],
           body = Some (''{"schemas":["urn:ietf:params:scim:api:messages:2.0:Error"],'' @
                        ''"status":"403","detail":"Operation DELETE /Users is not permitted"}'')\<rparr>,
      [])\<close>
proof -
  let ?rule = "\<lparr>resource = ''/Users'', methods = [''DELETE''], action = Reject\<rparr>"
  have m: "matchRule (demoEnv refusing) (req_pathname (exampleRequest ''DELETE'' ''/Users/abc'' None))
             (req_method (exampleRequest ''DELETE'' ''/Users/abc'' None))
             (rules (exampleConfig [?rule] None None))
             (base_path (server (exampleConfig [?rule] None None))) = Some ?rule"
    by (simp add: matchRule_def extractResource_def exampleRequest_def exampleConfig_def
          demoEnv_fields asciiUpperCase_def upperChar_def)
  have a: "action ?rule = Reject" by simp
  show ?thesis
    using reject_response [OF m a]
    by (simp add: demoEnv_def quoteJSON_def exampleRequest_def)
qed

text \<open>
  Claim C2. When \<open>matchRule\<close> returns a rule, the handler returns the response the
  action of the rule selects (the 403 error for reject, the result of
  \<open>buildSilentResponse\<close> for silent, of \<open>buildEmptyResponse\<close> for empty), which is a
  response and not a fault, and it has invoked neither \<open>applyTransforms\<close> nor
  \<open>forwardRequest\<close> nor the upstream. Whenever one of these has been invoked, no rule
  has matched.
\<close>

theorem matched_rule_short_circuits:
  "(matchRule E (req_pathname req) (req_method req) (rules config)
      (base_path (server config)) = Some rule \<longrightarrow>
      snd (serve_fetch E config req) = []
      \<and> (\<exists>r. fst (serve_fetch E config req) = Inr r)
      \<and> fst (serve_fetch E config req) =
          (case action rule of
             Reject \<Rightarrow>
               scimError E 403 (''Operation '' @ req_method req @ '' '' @ resource rule @
                                '' is not permitted'')
           | Silent \<Rightarrow>
               buildSilentResponse E (req_method req) (ruleBody E (req_body req))
                 (req_pathname req) (base_path (server config))
           | Empty \<Rightarrow>
               buildEmptyResponse E (req_method req) (req_pathname req)
                 (ruleBody E (req_body req)) (base_path (server config))))
   \<and> (snd (serve_fetch E config req) \<noteq> [] \<longrightarrow>
        matchRule E (req_pathname req) (req_method req) (rules config)
          (base_path (server config)) = None)"
proof (intro conjI impI)
  assume m: "matchRule E (req_pathname req) (req_method req) (rules config)
      (base_path (server config)) = Some rule"
  then show "snd (serve_fetch E config req) = []"
    by (cases "action rule") (simp_all add: serve_fetch_def Let_def)
  from m show "fst (serve_fetch E config req) =
          (case action rule of
             Reject \<Rightarrow>
               scimError E 403 (''Operation '' @ req_method req @ '' '' @ resource rule @
                                '' is not permitted'')
           | Silent \<Rightarrow>
               buildSilentResponse E (req_method req) (ruleBody E (req_body req))
                 (req_pathname req) (base_path (server config))
           | Empty \<Rightarrow>
               buildEmptyResponse E (req_method req) (req_pathname req)
                 (ruleBody E (req_body req)) (base_path (server config)))"
    by (cases "action rule") (simp_all add: serve_fetch_def Let_def)
  then show "\<exists>r. fst (serve_fetch E config req) = Inr r"
    using buildSilentResponse_returns buildEmptyResponse_returns
    by (cases "action rule") (simp_all add: scimError_response)
next
  assume t: "snd (serve_fetch E config req) \<noteq> []"
  show "matchRule E (req_pathname req) (req_method req) (rules config)
          (base_path (server config)) = None"
  proof (rule ccontr)
    assume "matchRule E (req_pathname req) (req_method req) (rules config)
          (base_path (server config)) \<noteq> None"
    then obtain rule' where "matchRule E (req_pathname req) (req_method req) (rules config)
          (base_path (server config)) = Some rule'"
      by auto
    then have "snd (serve_fetch E config req) = []"
      by (cases "action rule'") (simp_all add: serve_fetch_def Let_def)
    with t show False by simp
  qed
qed

theorem matched_rule_short_circuits_witness:
  \<open>snd (serve_fetch (demoEnv refusing) (exampleConfig exampleRules None (Some ''work''))
          (exampleRequest ''POST'' ''/Bulk'' (Some ''{"emails":[{"value":"a@b.com"}]}''))) = []
   \<and> fst (serve_fetch (demoEnv refusing) (exampleConfig exampleRules None (Some ''work''))
          (exampleRequest ''POST'' ''/Bulk'' (Some ''{"emails":[{"value":"a@b.com"}]}'')))
     = buildSilentResponse (demoEnv refusing) ''POST''
         (JObj [(''emails'', JArr [JObj [(''value'', JStr ''a@b.com'')]])]) ''/Bulk'' None
   \<and> snd (serve_fetch (demoEnv refusing) (exampleConfig exampleRules None (Some ''work''))
          (exampleRequest ''POST'' ''/Users'' (Some ''{"emails":[{"value":"a@b.com"}]}''))) \<noteq> []
   \<and> matchRule (demoEnv refusing) ''/Users'' ''POST'' exampleRules None = None\<close>
proof -
  let ?cfg = "exampleConfig exampleRules None (Some ''work'')"
  let ?bulk = \<open>exampleRequest ''POST'' ''/Bulk'' (Some ''{"emails":[{"value":"a@b.com"}]}'')\<close>
  let ?users = \<open>exampleRequest ''POST'' ''/Users'' (Some ''{"emails":[{"value":"a@b.com"}]}'')\<close>
  let ?rule = "\<lparr>resource = ''/Bulk'', methods = [''POST''], action = Silent\<rparr>"
  have m: "matchRule (demoEnv refusing) (req_pathname ?bulk) (req_method ?bulk) (rules ?cfg)
             (base_path (server ?cfg)) = Some ?rule"
    by (simp add: matchRule_def extractResource_def exampleRequest_def exampleConfig_def
          exampleRules_def demoEnv_fields asciiUpperCase_def upperChar_def)
  have b: \<open>ruleBody (demoEnv refusing) (req_body ?bulk)
             = JObj [(''emails'', JArr [JObj [(''value'', JStr ''a@b.com'')]])]\<close>
    by (simp add: ruleBody_def exampleRequest_def demoEnv_def readJSON_def stripPrefix_def)
  have nm: "matchRule (demoEnv refusing) (req_pathname ?users) (req_method ?users) (rules ?cfg)
             (base_path (server ?cfg)) = None"
    by (simp add: matchRule_def extractResource_def exampleRequest_def exampleConfig_def
          exampleRules_def demoEnv_fields asciiUpperCase_def upperChar_def)
  have t: "snd (serve_fetch (demoEnv refusing) ?cfg ?users) \<noteq> []"
    unfolding serve_fetch_def Let_def nm
    by (simp add: exampleRequest_def split: sum.splits prod.splits)
  show ?thesis
    using matched_rule_short_circuits [of "demoEnv refusing" ?bulk ?cfg ?rule]
          matched_rule_short_circuits [of "demoEnv refusing" ?users ?cfg ?rule] m b t
    by (simp add: exampleRequest_def exampleConfig_def)
qed

section \<open>Properties of objects\<close>

lemma map_of_replaceValue:
  "map_of (replaceValue k v ps) = (if k \<in> fst ` set ps then (map_of ps)(k \<mapsto> v) else map_of ps)"
  by (induction ps) (auto simp: fun_eq_iff)

lemma map_of_insertIndexKey:
  "k \<notin> fst ` set ps \<Longrightarrow> map_of (insertIndexKey n k v ps) = (map_of ps)(k \<mapsto> v)"
  by (induction ps) (auto simp: fun_eq_iff)

lemma map_of_snoc:
  assumes "k \<notin> fst ` set ps"
  shows "map_of (ps @ [(k, v)]) = (map_of ps)(k \<mapsto> v)"
proof -
  from assms have "map_of ps k = None"
    by (simp add: map_of_eq_None_iff)
  then show ?thesis
    by (auto simp: fun_eq_iff map_add_def split: option.splits)
qed

text \<open>Setting a property changes the value under that key and no other.\<close>

lemma map_of_setProp: "map_of (setProp ps k v) = (map_of ps)(k \<mapsto> v)"
  by (simp add: setProp_def map_of_replaceValue map_of_insertIndexKey map_of_snoc
        del: map_of_append)







section \<open>Properties of the stubs\<close>





lemma silent_GET_singleton_value:
  "toUpperCase E method = ''GET'' \<Longrightarrow> \<not> isRequestToCollection pathname basePath \<Longrightarrow>
   buildSilentResponse E method b pathname basePath =
     Inr \<lparr>status = 200, statusText = [],
          headers = [(''Content-Type'', ''application/scim+json'')],
          body = Some (JSON_stringify E (JObj
            [(''schemas'', JArr [JStr ''urn:ietf:params:scim:schemas:core:2.0:User'']),
             (''id'', JStr (randomUUID E))]))\<rparr>"
  by (simp add: buildSilentResponse_def Let_def new_Response_def SCIM_JSON_def
        objectLiteral_two not_index_literals)

text \<open>
  Claim C9, as stated, fails: the stub of a silent GET on a singleton path has two
  members, the \<open>schemas\<close> declaration and the identifier, so its text is not that of an
  object containing only the identifier.
\<close>

theorem silent_GET_singleton_has_schemas:
  \<open>buildSilentResponse (demoEnv refusing) ''GET'' JNull ''/Groups/abc'' None =
     Inr \<lparr>status = 200, statusText = [],
          headers = [(''Content-Type'', ''application/scim+json'')],
          body = Some (''{"schemas":["urn:ietf:params:scim:schemas:core:2.0:User"],'' @
                       ''"id":"3f2c1e0a-5b6d-4c7e-8f90-a1b2c3d4e5f6"}'')\<rparr>
   \<and> buildSilentResponse (demoEnv refusing) ''GET'' JNull ''/Groups/abc'' None \<noteq>
     Inr \<lparr>status = 200, statusText = [],
          headers = [(''Content-Type'', ''application/scim+json'')],
          body = Some (JSON_stringify (demoEnv refusing)
                   (JObj [(''id'', JStr (randomUUID (demoEnv refusing)))]))\<rparr>\<close>
proof -
  have up: "toUpperCase (demoEnv refusing) ''GET'' = ''GET''"
    by (simp add: demoEnv_fields asciiUpperCase_def upperChar_def)
  have single: "\<not> isRequestToCollection ''/Groups/abc'' None"
    by (simp add: isRequestToCollection_def)
  show ?thesis
    by (simp add: silent_GET_singleton_value [OF up single] demoEnv_fields quoteJSON_def)
qed

text \<open>
  Claim C9, amended. For a GET request on a singleton path, \<open>buildSilentResponse\<close>
  returns status 200 with a stub object of exactly two members: the \<open>schemas\<close>
  declaration of the core User schema and \<open>id\<close>, the identifier
  \<open>crypto.randomUUID()\<close> has returned in this call.
\<close>

theorem silent_GET_singleton:
  "toUpperCase E method = ''GET'' \<Longrightarrow> \<not> isRequestToCollection pathname basePath \<Longrightarrow>
   buildSilentResponse E method b pathname basePath =
     Inr \<lparr>status = 200, statusText = [],
          headers = [(''Content-Type'', ''application/scim+json'')],
          body = Some (JSON_stringify E (JObj
            [(''schemas'', JArr [JStr ''urn:ietf:params:scim:schemas:core:2.0:User'']),
             (''id'', JStr (randomUUID E))]))\<rparr>"
  by (rule silent_GET_singleton_value)

theorem silent_GET_singleton_witness:
  "buildSilentResponse (demoEnv refusing) ''get'' JNull ''/scim/v2/Users/abc'' (Some ''/scim/v2'') =
     Inr \<lparr>status = 200, statusText = [],
          headers = [(''Content-Type'', ''application/scim+json'')],
          body = Some (writeJSON (JObj
            [(''schemas'', JArr [JStr ''urn:ietf:params:scim:schemas:core:2.0:User'']),
             (''id'', JStr ''3f2c1e0a-5b6d-4c7e-8f90-a1b2c3d4e5f6'')]))\<rparr>"
proof -
  have up: "toUpperCase (demoEnv refusing) ''get'' = ''GET''"
    by (simp add: demoEnv_fields asciiUpperCase_def upperChar_def)
  have single: "\<not> isRequestToCollection ''/scim/v2/Users/abc'' (Some ''/scim/v2'')"
    by (simp add: isRequestToCollection_def slice_def)
  show ?thesis
    using silent_GET_singleton [OF up single, of JNull]
    by (simp add: demoEnv_fields)
qed

section \<open>Properties of the body transformer\<close>

lemma sameExceptType_refl: "sameExceptType v v"
  by (cases v) simp_all

lemma sameExceptFirstType_refl: "sameExceptFirstType v v"
proof (cases v)
  case (JArr xs)
  then show ?thesis by (cases xs) (simp_all add: sameExceptType_refl)
qed simp_all

lemma filter_replaceValue:
  "filter (\<lambda>p. fst p \<noteq> k) (replaceValue k v ps) = filter (\<lambda>p. fst p \<noteq> k) ps"
  by (induction ps) auto

lemma sameExceptType_setProp:
  "sameExceptType (JObj fs) (JObj (setProp fs ''type'' v))"
  by (simp add: setProp_def filter_replaceValue not_index_literals)

lemma sameExceptType_assignNamed:
  "assignNamed first ''type'' v = Some first' \<Longrightarrow> sameExceptType first first'"
  using sameExceptType_setProp by (cases first) auto

lemma list_all2_replaceValue:
  "map_of ps k = Some old \<Longrightarrow> R old new \<Longrightarrow> (\<And>v. R v v) \<Longrightarrow>
   list_all2 (\<lambda>p p'. fst p' = fst p \<and> (if fst p = k then R (snd p) (snd p') else snd p' = snd p))
     ps (replaceValue k new ps)"
proof (induction ps)
  case Nil
  then show ?case by simp
next
  case (Cons p ps)
  show ?case
  proof (cases "fst p = k")
    case True
    with Cons.prems show ?thesis
      by (cases p) (simp add: list_all2_same)
  next
    case False
    with Cons show ?thesis by (cases p) auto
  qed
qed

text \<open>The branch of \<open>applyTransforms\<close> that rewrites the body, and when it is taken.\<close>

lemma applyTransforms_cases:
  assumes "applyTransforms E x cfg = Inr y"
  shows "y = x \<or>
    (\<exists>ps first others first'.
       JSON_parse E x = Some (JObj ps) \<and>
       truthyStr (inject_email_type (transforms cfg)) \<and>
       map_of ps ''emails'' = Some (JArr (first # others)) \<and>
       truthy (Some first) \<and> \<not> truthy (getNamed first ''type'') \<and>
       assignNamed first ''type'' (JStr (the (inject_email_type (transforms cfg)))) = Some first' \<and>
       y = JSON_stringify E (JObj (replaceValue ''emails'' (JArr (first' # others)) ps)))"
proof (cases "truthyStr (inject_email_type (transforms cfg))")
  case False
  with assms show ?thesis by (simp add: applyTransforms_def)
next
  case et: True
  show ?thesis
  proof (cases "JSON_parse E x")
    case None
    with assms et show ?thesis by (simp add: applyTransforms_def)
  next
    case (Some parsed)
    show ?thesis
    proof (cases parsed)
      case (JObj ps)
      with assms et Some show ?thesis
        by (auto simp: applyTransforms_def Let_def
              split: option.splits json.splits list.splits if_splits)
    qed (use assms et Some in \<open>simp_all add: applyTransforms_def Let_def\<close>)
  qed
qed

text \<open>
  Claim C7, as stated, fails: a member \<open>type\<close> that is present with the value
  \<open>false\<close> or \<open>0\<close>, neither of them empty, is overwritten, because the program tests
  \<open>!first["type"]\<close>.
\<close>

theorem falsy_type_overwritten:
  \<open>JSON_parse (demoEnv refusing) ''{"emails":[{"type":false}]}''
     = Some (JObj [(''emails'', JArr [JObj [(''type'', JBool False)]])])
   \<and> applyTransforms (demoEnv refusing) ''{"emails":[{"type":false}]}''
       (exampleConfig [] None (Some ''work''))
     = Inr ''{"emails":[{"type":"work"}]}''
   \<and> JSON_parse (demoEnv refusing) ''{"emails":[{"type":0}]}''
     = Some (JObj [(''emails'', JArr [JObj [(''type'', JNum (Num 0))]])])
   \<and> applyTransforms (demoEnv refusing) ''{"emails":[{"type":0}]}''
       (exampleConfig [] None (Some ''work''))
     = Inr ''{"emails":[{"type":"work"}]}''\<close>
  by code_simp

text \<open>
  Claim C7, amended. A result of \<open>applyTransforms\<close> is the input text itself, or the
  text of a value that differs from the parsed input at most in the member \<open>type\<close> of
  the first element of the array under \<open>emails\<close>: same top-level keys in the same
  order, every other top-level value, every later element of the array and every other
  member of the first element unchanged. When that member is present with a truthy value
  (any value but \<open>null\<close>, \<open>false\<close>, zero and the empty string), the result is the
  input text.
\<close>

theorem applyTransforms_frame:
  "(applyTransforms E x cfg = Inr y \<longrightarrow>
      y = x \<or> (\<exists>v v'. JSON_parse E x = Some v \<and> sameExceptFirstEmailType v v' \<and>
                      y = JSON_stringify E v'))
   \<and> (JSON_parse E x = Some v \<and> getNamed v ''emails'' = Some (JArr (first # others)) \<and>
      truthy (getNamed first ''type'') \<longrightarrow> applyTransforms E x cfg = Inr x)"
proof (intro conjI impI)
  assume "applyTransforms E x cfg = Inr y"
  from applyTransforms_cases [OF this]
  show "y = x \<or> (\<exists>v v'. JSON_parse E x = Some v \<and> sameExceptFirstEmailType v v' \<and>
                      y = JSON_stringify E v')"
  proof
    assume "y = x"
    then show ?thesis by simp
  next
    assume "\<exists>ps first others first'.
       JSON_parse E x = Some (JObj ps) \<and>
       truthyStr (inject_email_type (transforms cfg)) \<and>
       map_of ps ''emails'' = Some (JArr (first # others)) \<and>
       truthy (Some first) \<and> \<not> truthy (getNamed first ''type'') \<and>
       assignNamed first ''type'' (JStr (the (inject_email_type (transforms cfg)))) = Some first' \<and>
       y = JSON_stringify E (JObj (replaceValue ''emails'' (JArr (first' # others)) ps))"
    then obtain ps f os f' where p: "JSON_parse E x = Some (JObj ps)"
      and e: "map_of ps ''emails'' = Some (JArr (f # os))"
      and a: "assignNamed f ''type'' (JStr (the (inject_email_type (transforms cfg)))) = Some f'"
      and y: "y = JSON_stringify E (JObj (replaceValue ''emails'' (JArr (f' # os)) ps))"
      by blast
    from a have "sameExceptFirstType (JArr (f # os)) (JArr (f' # os))"
      by (simp add: sameExceptType_assignNamed)
    with e have "sameExceptFirstEmailType (JObj ps)
                   (JObj (replaceValue ''emails'' (JArr (f' # os)) ps))"
      by (simp add: list_all2_replaceValue [where R = sameExceptFirstType]
            sameExceptFirstType_refl)
    with p y show ?thesis by blast
  qed
next
  assume h: "JSON_parse E x = Some v \<and> getNamed v ''emails'' = Some (JArr (first # others)) \<and>
      truthy (getNamed first ''type'')"
  then have "v \<noteq> JNull" by auto
  with h show "applyTransforms E x cfg = Inr x"
    by (simp add: applyTransforms_def Let_def)
qed


theorem applyTransforms_frame_witness:
  \<open>applyTransforms (demoEnv refusing)
      ''{"userName":"test","emails":[{"value":"a@b.com","primary":true},{"value":"c@d.com"}]}''
      (exampleConfig [] None (Some ''work''))
    = Inr (''{"userName":"test","emails":[{"value":"a@b.com","primary":true,"type":"work"},'' @
           ''{"value":"c@d.com"}]}'')
   \<and> (\<exists>v v'. JSON_parse (demoEnv refusing)
          ''{"userName":"test","emails":[{"value":"a@b.com","primary":true},{"value":"c@d.com"}]}''
            = Some v
        \<and> sameExceptFirstEmailType v v'
        \<and> ''{"userName":"test","emails":[{"value":"a@b.com","primary":true,"type":"work"},'' @
           ''{"value":"c@d.com"}]}'' = JSON_stringify (demoEnv refusing) v')
   \<and> applyTransforms (demoEnv refusing) ''{"emails":[{"value":"a@b.com","type":"home"}]}''
        (exampleConfig [] None (Some ''work''))
       = Inr ''{"emails":[{"value":"a@b.com","type":"home"}]}''\<close>
proof -
  let ?E = "demoEnv refusing"
  let ?cfg = "exampleConfig [] None (Some ''work'')"
  let ?x = \<open>''{"userName":"test","emails":[{"value":"a@b.com","primary":true},{"value":"c@d.com"}]}''\<close>
  let ?y = \<open>''{"userName":"test","emails":[{"value":"a@b.com","primary":true,"type":"work"},'' @
           ''{"value":"c@d.com"}]}''\<close>
  let ?z = \<open>''{"emails":[{"value":"a@b.com","type":"home"}]}''\<close>
  let ?first = "JObj [(''value'', JStr ''a@b.com''), (''type'', JStr ''home'')]"
  have run: "applyTransforms ?E ?x ?cfg = Inr ?y"
    by code_simp
  have differ: "?y \<noteq> ?x"
    by simp
  have parsed: "JSON_parse ?E ?z = Some (JObj [(''emails'', JArr [?first])])"
    by code_simp
  have present: "getNamed (JObj [(''emails'', JArr [?first])]) ''emails'' = Some (JArr (?first # []))
      \<and> truthy (getNamed ?first ''type'')"
    by simp
  from applyTransforms_frame [where E = ?E and x = ?x and cfg = ?cfg and y = ?y] run differ
  have "\<exists>v v'. JSON_parse ?E ?x = Some v \<and> sameExceptFirstEmailType v v' \<and>
           ?y = JSON_stringify ?E v'"
    by blast
  moreover from applyTransforms_frame [where E = ?E and x = ?z and cfg = ?cfg
      and v = "JObj [(''emails'', JArr [?first])]" and first = ?first and others = "[]"]
      parsed present
  have "applyTransforms ?E ?z ?cfg = Inr ?z"
    by blast
  ultimately show ?thesis
    using run by blast
qed

section \<open>The codec round-trips\<close>

lemma digit_chars:
  "list_all (\<lambda>n. isDigit (''0123456789'' ! n) \<and>
                 (of_char (''0123456789'' ! n) :: nat) - 48 = n) [0 ..< 10]"
  by code_simp

lemma digit_char:
  assumes "n < 10"
  shows "isDigit (''0123456789'' ! n)" and "(of_char (''0123456789'' ! n) :: nat) - 48 = n"
  using digit_chars assms by (simp_all add: list_all_iff)

lemma String_nat_digits: "list_all isDigit (String_nat n) \<and> String_nat n \<noteq> []"
proof (induction n rule: String_nat.induct)
  case (1 n)
  show ?case
  proof (cases "n < 10")
    case True
    then show ?thesis
      by (subst (1 2) String_nat.simps) (simp add: digit_char)
  next
    case False
    with 1 show ?thesis
      by (subst (1 2) String_nat.simps) (simp add: digit_char)
  qed
qed

lemma digitsValue_snoc:
  "digitsValue (s @ [c]) = 10 * digitsValue s + ((of_char c :: nat) - 48)"
  by (simp add: digitsValue_def)

lemma digitsValue_String_nat: "digitsValue (String_nat n) = n"
proof (induction n rule: String_nat.induct)
  case (1 n)
  show ?case
  proof (cases "n < 10")
    case True
    then show ?thesis
      by (subst String_nat.simps) (simp add: digitsValue_def digit_char)
  next
    case False
    with 1 show ?thesis
      by (subst String_nat.simps) (simp add: digitsValue_snoc digit_char)
  qed
qed

lemma ends_no_digit: "ends r \<Longrightarrow> r \<noteq> [] \<Longrightarrow> \<not> isDigit (hd r)"
  by (auto simp: ends_def isDigit_def)

lemma takeWhile_digits:
  "list_all isDigit ds \<Longrightarrow> r = [] \<or> \<not> isDigit (hd r) \<Longrightarrow>
   takeWhile isDigit (ds @ r) = ds \<and> dropWhile isDigit (ds @ r) = r"
  by (induction ds) (cases r; auto)+

lemma takeWhile_String_nat:
  "r = [] \<or> \<not> isDigit (hd r) \<Longrightarrow>
   takeWhile isDigit (String_nat n @ r) = String_nat n \<and>
   dropWhile isDigit (String_nat n @ r) = r"
  using String_nat_digits by (intro takeWhile_digits) auto

lemma String_nat_no_minus: "hd (String_nat n @ r) \<noteq> CHR ''-''"
proof -
  from String_nat_digits [of n] obtain d ds where "String_nat n = d # ds" and "isDigit d"
    by (cases "String_nat n") auto
  then show ?thesis by (auto simp: isDigit_def)
qed

lemma readNumber_writeInt:
  assumes "ends r"
  shows "readNumber (writeInt i @ r) = Some (Num (of_int i), r)"
proof -
  from assms have nd: "r = [] \<or> \<not> isDigit (hd r)"
    using ends_no_digit by blast
  show ?thesis
  proof (cases "i < 0")
    case True
    then have pos: "nat (- i) \<noteq> 0" by simp
    from True show ?thesis
      using takeWhile_String_nat [OF nd, of "nat (- i)"] String_nat_digits [of "nat (- i)"] pos
      by (auto simp: readNumber_def writeInt_def Let_def digitsValue_String_nat)
  next
    case False
    then show ?thesis
      using takeWhile_String_nat [OF nd, of "nat i"] String_nat_digits [of "nat i"]
        String_nat_no_minus [of "nat i" r]
      by (auto simp: readNumber_def writeInt_def Let_def digitsValue_String_nat)
  qed
qed

lemma readNumber_writeNumber:
  assumes "ends r" and "demoNumbers (Num q)"
  shows "readNumber (writeNumber (Num q) @ r) = Some (Num q, r)"
  using readNumber_writeInt [OF assms(1), of "\<lfloor>q\<rfloor>"] assms(2) by simp

lemma readString_escapeJSON:
  "readString (escapeJSON s @ CHR 0x22 # r) = Some (s, r)"
  by (induction s) auto

lemma writeInt_start:
  "writeInt i @ r \<noteq> [] \<and> (hd (writeInt i @ r) = CHR ''-'' \<or> isDigit (hd (writeInt i @ r)))"
proof -
  obtain d ds where "String_nat (nat i) = d # ds" and "isDigit d"
    using String_nat_digits [of "nat i"] by (cases "String_nat (nat i)") auto
  then show ?thesis by (simp add: writeInt_def)
qed

lemma writeNumber_start:
  "writeNumber (Num q) @ r \<noteq> [] \<and>
   (hd (writeNumber (Num q) @ r) = CHR ''-'' \<or> isDigit (hd (writeNumber (Num q) @ r)))"
  using writeInt_start [of "\<lfloor>q\<rfloor>" r] by simp

lemma readValue_number:
  "s \<noteq> [] \<Longrightarrow> hd s = CHR ''-'' \<or> isDigit (hd s) \<Longrightarrow>
   readValue (Suc m) s = map_option (\<lambda>(x, r). (JNum x, r)) (readNumber s)"
  by (cases s) (auto simp: isDigit_def)

lemma writeJSON_start:
  "writeJSON v \<noteq> [] \<and> hd (writeJSON v) \<notin> {CHR '']'', CHR ''}'', CHR '',''}"
proof (cases v)
  case (JNum x)
  show ?thesis
  proof (cases x)
    case (Num q)
    with JNum writeNumber_start [of q "[]"] show ?thesis
      by (auto simp: isDigit_def)
  qed (simp_all add: JNum)
qed (simp_all add: quoteJSON_def)

lemma writeElems_start:
  "xs \<noteq> [] \<Longrightarrow> hd (writeElems xs @ r) \<noteq> CHR '']''"
  using writeJSON_start [of "hd xs"] by (cases xs) auto

lemma writeMembers_start:
  "ps \<noteq> [] \<Longrightarrow> hd (writeMembers ps @ r) = CHR 0x22"
  by (cases ps) (auto simp: quoteJSON_def)

lemma read_write:
  "wellFormed demoNumbers v \<Longrightarrow>
   \<forall>n r. length (writeJSON v) \<le> n \<longrightarrow> ends r \<longrightarrow>
      readValue n (writeJSON v @ r) = Some (normalise v, r)"
  "\<forall>x \<in> set xs. wellFormed demoNumbers x \<Longrightarrow>
   \<forall>n r. length (writeElems xs) \<le> n \<longrightarrow>
      readElems n (writeElems xs @ r) = Some (map normalise xs, r)"
  "\<forall>p \<in> set ps. wellFormed demoNumbers (snd p) \<Longrightarrow>
   \<forall>n r. length (writeMembers ps) \<le> n \<longrightarrow>
      readMembers n (writeMembers ps @ r)
        = Some (map (\<lambda>p. (fst p, normalise (snd p))) ps, r)"
proof (induction v and xs and ps rule: writeJSON_writeElems_writeMembers.induct)
  case 1
  show ?case
  proof (intro allI impI)
    fix n r assume "length (writeJSON JNull) \<le> n"
    then obtain m where "n = Suc m" by (cases n) auto
    then show "readValue n (writeJSON JNull @ r) = Some (normalise JNull, r)"
      by (simp add: stripPrefix_def)
  qed
next
  case (2 b)
  show ?case
  proof (intro allI impI)
    fix n r assume "length (writeJSON (JBool b)) \<le> n"
    then obtain m where "n = Suc m" by (cases n) (auto split: if_splits)
    then show "readValue n (writeJSON (JBool b) @ r) = Some (normalise (JBool b), r)"
      by (simp add: stripPrefix_def)
  qed
next
  case (3 x)
  show ?case
  proof (intro allI impI)
    fix n r assume len: "length (writeJSON (JNum x)) \<le> n" and e: "ends r"
    have "writeJSON (JNum x) \<noteq> []"
      using writeJSON_start [of "JNum x"] by simp
    with len obtain m where n: "n = Suc m" by (cases n) auto
    show "readValue n (writeJSON (JNum x) @ r) = Some (normalise (JNum x), r)"
    proof (cases x)
      case (Num q)
      with 3 have "demoNumbers (Num q)" by simp
      with Num writeNumber_start [of q r] readNumber_writeNumber [OF e, of q] show ?thesis
        by (simp add: n readValue_number)
    next
      case NegZero
      have "readNumber (writeInt 0 @ r) = Some (Num (of_int 0), r)"
        using e by (rule readNumber_writeInt)
      then have "readNumber (CHR ''0'' # r) = Some (Num 0, r)"
        by (simp add: writeInt_def String_nat.simps)
      with NegZero show ?thesis
        by (simp add: n readValue_number isDigit_def)
    next
      case PlusInfinity
      then show ?thesis by (simp add: n stripPrefix_def)
    next
      case MinusInfinity
      then show ?thesis by (simp add: n stripPrefix_def)
    qed
  qed
next
  case (4 s)
  show ?case
  proof (intro allI impI)
    fix n r assume "length (writeJSON (JStr s)) \<le> n"
    then obtain m where "n = Suc m" by (cases n) (auto simp: quoteJSON_def)
    then show "readValue n (writeJSON (JStr s) @ r) = Some (normalise (JStr s), r)"
      by (simp add: quoteJSON_def readString_escapeJSON)
  qed
next
  case (5 xs)
  show ?case
  proof (intro allI impI)
    fix n r assume len: "length (writeJSON (JArr xs)) \<le> n"
    then obtain m where n: "n = Suc m" by (cases n) auto
    with len have "length (writeElems xs) \<le> m" by simp
    with 5 have "readElems m (writeElems xs @ r) = Some (map normalise xs, r)"
      by simp
    then show "readValue n (writeJSON (JArr xs) @ r) = Some (normalise (JArr xs), r)"
      by (simp add: n)
  qed
next
  case (6 ps)
  show ?case
  proof (intro allI impI)
    fix n r assume len: "length (writeJSON (JObj ps)) \<le> n"
    then obtain m where n: "n = Suc m" by (cases n) auto
    with len have "length (writeMembers ps) \<le> m" by simp
    with 6 have "readMembers m (writeMembers ps @ r)
                   = Some (map (\<lambda>p. (fst p, normalise (snd p))) ps, r)"
      by simp
    then show "readValue n (writeJSON (JObj ps) @ r) = Some (normalise (JObj ps), r)"
      by (simp add: n)
  qed
next
  case 7
  show ?case
  proof (intro allI impI)
    fix n r assume "length (writeElems []) \<le> n"
    then obtain m where "n = Suc m" by (cases n) auto
    then show "readElems n (writeElems [] @ r) = Some (map normalise [], r)"
      by simp
  qed
next
  case (8 x xs)
  show ?case
  proof (intro allI impI)
    fix n r assume len: "length (writeElems (x # xs)) \<le> n"
    then obtain m where n: "n = Suc m" by (cases n) (auto split: if_splits)
    let ?rest = "(if xs = [] then '']'' else CHR '','' # writeElems xs) @ r"
    have w: "writeElems (x # xs) @ r = writeJSON x @ ?rest"
      by simp
    have start: "writeJSON x @ ?rest \<noteq> [] \<and> hd (writeJSON x @ ?rest) \<noteq> CHR '']''"
      using writeJSON_start [of x] by auto
    from len n have lx: "length (writeJSON x) \<le> m"
      by (auto split: if_splits)
    have "ends ?rest"
      by (simp add: ends_def)
    moreover from "8.prems" have "wellFormed demoNumbers x"
      by simp
    ultimately have rx: "readValue m (writeJSON x @ ?rest) = Some (normalise x, ?rest)"
      using "8.IH"(1) lx by blast
    show "readElems n (writeElems (x # xs) @ r) = Some (map normalise (x # xs), r)"
    proof (cases "xs = []")
      case True
      with start rx show ?thesis
        unfolding w n by (simp del: writeElems.simps)
    next
      case False
      from len n False have "length (writeElems xs) \<le> m"
        using writeJSON_start [of x] by (cases "writeJSON x") auto
      with "8.IH"(2) "8.prems" False
      have "readElems m (writeElems xs @ r) = Some (map normalise xs, r)"
        by simp
      with False start rx writeElems_start [OF False, of r] show ?thesis
        unfolding w n by (simp del: writeElems.simps)
    qed
  qed
next
  case 9
  show ?case
  proof (intro allI impI)
    fix n r assume "length (writeMembers []) \<le> n"
    then obtain m where "n = Suc m" by (cases n) auto
    then show "readMembers n (writeMembers [] @ r)
                 = Some (map (\<lambda>p. (fst p, normalise (snd p))) [], r)"
      by simp
  qed
next
  case (10 p ps)
  show ?case
  proof (intro allI impI)
    fix n r assume len: "length (writeMembers (p # ps)) \<le> n"
    then obtain m where n: "n = Suc m" by (cases n) (auto simp: quoteJSON_def)
    let ?rest = "(if ps = [] then ''}'' else CHR '','' # writeMembers ps) @ r"
    have w: "writeMembers (p # ps) @ r
               = CHR 0x22 # escapeJSON (fst p) @ CHR 0x22 # CHR '':'' # writeJSON (snd p) @ ?rest"
      by (simp add: quoteJSON_def)
    from len n have lx: "length (writeJSON (snd p)) \<le> m"
      by (auto simp: quoteJSON_def split: if_splits)
    have "ends ?rest"
      by (simp add: ends_def)
    moreover from "10.prems" have "wellFormed demoNumbers (snd p)"
      by simp
    ultimately
    have rx: "readValue m (writeJSON (snd p) @ ?rest) = Some (normalise (snd p), ?rest)"
      using "10.IH"(1) lx by blast
    show "readMembers n (writeMembers (p # ps) @ r)
            = Some (map (\<lambda>p. (fst p, normalise (snd p))) (p # ps), r)"
    proof (cases "ps = []")
      case True
      with rx show ?thesis
        unfolding w n by (simp add: readString_escapeJSON del: writeMembers.simps)
    next
      case False
      from len n False have "length (writeMembers ps) \<le> m"
        by (auto simp: quoteJSON_def)
      with "10.IH"(2) "10.prems" False
      have "readMembers m (writeMembers ps @ r)
              = Some (map (\<lambda>p. (fst p, normalise (snd p))) ps, r)"
        by simp
      with False rx writeMembers_start [OF False, of r] show ?thesis
        unfolding w n by (simp add: readString_escapeJSON del: writeMembers.simps)
    qed
  qed
qed

lemma writeJSON_normalise:
  "writeJSON (normalise v) = writeJSON v"
  "writeElems (map normalise xs) = writeElems xs"
  "writeMembers (map (\<lambda>p. (fst p, normalise (snd p))) ps) = writeMembers ps"
proof (induction v and xs and ps rule: writeJSON_writeElems_writeMembers.induct)
  case (3 x)
  show ?case
    by (cases x) (simp_all add: writeInt_def String_nat.simps)
qed auto

lemma wellFormed_normalise:
  "wellFormed demoNumbers v \<Longrightarrow> wellFormed demoNumbers (normalise v)"
proof (induction v)
  case (JNum x)
  then show ?case by (cases x) simp_all
next
  case (JObj ps)
  have keys: "map fst (map (\<lambda>p. (fst p, normalise (snd p))) ps) = map fst ps"
    by (simp add: comp_def)
  have "wellFormed demoNumbers (normalise (snd p))" if "p \<in> set ps" for p
    using JObj that by (cases p) (auto simp: prod_set_simps)
  with JObj.prems show ?case
    by (simp add: comp_def)
qed auto

text \<open>The runtime over the codec satisfies what the idempotence asks.\<close>

lemma roundTrips_demoEnv: "roundTrips demoNumbers (demoEnv f)"
proof -
  have wf: "wellFormed demoNumbers v" if "readJSON x = Some v" for x v
    using that by (auto simp: readJSON_def split: option.splits prod.splits if_splits)
  have rw: "readJSON (writeJSON v) = Some (normalise v)" if "wellFormed demoNumbers v" for v
  proof -
    have "readValue (Suc (length (writeJSON v))) (writeJSON v @ []) = Some (normalise v, [])"
      using read_write(1) [OF that] by (simp add: ends_def)
    with that show ?thesis
      by (simp add: readJSON_def wellFormed_normalise)
  qed
  from wf rw show ?thesis
    by (simp add: roundTrips_def demoEnv_fields writeJSON_normalise)
qed


section \<open>Idempotence of the body transformer\<close>

lemma map_of_normalised:
  "map_of (map (\<lambda>p. (fst p, normalise (snd p))) ps) k = map_option normalise (map_of ps k)"
  by (induction ps) auto

lemma replaceValue_same: "map_of ps k = Some v \<Longrightarrow> replaceValue k v ps = ps"
  by (induction ps) (auto split: if_splits)

lemma map_fst_replaceValue: "map fst (replaceValue k v ps) = map fst ps"
  by (induction ps) auto

lemma set_replaceValue: "p \<in> set (replaceValue k v ps) \<Longrightarrow> p \<in> set ps \<or> p = (k, v)"
  by (induction ps) (auto split: if_splits)

lemma keysOrdered_snoc:
  "keysOrdered ks \<Longrightarrow> \<not> isArrayIndex k \<Longrightarrow> keysOrdered (ks @ [k])"
  by (induction ks rule: keysOrdered.induct) auto

lemma wellFormed_lookup:
  "wellFormed N (JObj ps) \<Longrightarrow> map_of ps k = Some v \<Longrightarrow> wellFormed N v"
  by (auto dest: map_of_SomeD)

lemma wellFormed_replaceValue:
  "wellFormed N (JObj ps) \<Longrightarrow> wellFormed N v \<Longrightarrow> wellFormed N (JObj (replaceValue k v ps))"
  by (auto simp: map_fst_replaceValue dest: set_replaceValue)

lemma wellFormed_setProp:
  "wellFormed N (JObj ps) \<Longrightarrow> wellFormed N v \<Longrightarrow> \<not> isArrayIndex k \<Longrightarrow>
   wellFormed N (JObj (setProp ps k v))"
  by (auto simp: setProp_def map_fst_replaceValue keysOrdered_snoc dest: set_replaceValue)

lemma wellFormed_assignNamed:
  "wellFormed N first \<Longrightarrow> wellFormed N v \<Longrightarrow> \<not> isArrayIndex k \<Longrightarrow>
   assignNamed first k v = Some first' \<Longrightarrow> wellFormed N first'"
  using wellFormed_setProp by (cases first) auto

text \<open>The transformation leaves its own output alone.\<close>

lemma applyTransforms_output_fixed:
  assumes rt: "roundTrips N E"
    and run: "applyTransforms E x cfg = Inr y"
  shows "applyTransforms E y cfg = Inr y"
proof -
  from rt have P: "\<And>x v. JSON_parse E x = Some v \<Longrightarrow> wellFormed N v"
    and RT: "\<And>v. wellFormed N v \<Longrightarrow> JSON_parse E (JSON_stringify E v) = Some (normalise v)"
    and ST: "\<And>v. wellFormed N v \<Longrightarrow> JSON_stringify E (normalise v) = JSON_stringify E v"
    unfolding roundTrips_def by blast+
  from applyTransforms_cases [OF run] show ?thesis
  proof
    assume "y = x"
    with run show ?thesis by simp
  next
    assume "\<exists>ps first others first'.
       JSON_parse E x = Some (JObj ps) \<and>
       truthyStr (inject_email_type (transforms cfg)) \<and>
       map_of ps ''emails'' = Some (JArr (first # others)) \<and>
       truthy (Some first) \<and> \<not> truthy (getNamed first ''type'') \<and>
       assignNamed first ''type'' (JStr (the (inject_email_type (transforms cfg)))) = Some first' \<and>
       y = JSON_stringify E (JObj (replaceValue ''emails'' (JArr (first' # others)) ps))"
    then obtain ps f os f' where p: "JSON_parse E x = Some (JObj ps)"
      and et: "truthyStr (inject_email_type (transforms cfg))"
      and e: "map_of ps ''emails'' = Some (JArr (f # os))"
      and tf: "truthy (Some f)"
      and a: "assignNamed f ''type'' (JStr (the (inject_email_type (transforms cfg)))) = Some f'"
      and y: "y = JSON_stringify E (JObj (replaceValue ''emails'' (JArr (f' # os)) ps))"
      by blast
    let ?t = "the (inject_email_type (transforms cfg))"
    let ?N = "\<lambda>p. (fst p, normalise (snd p))"
    let ?v' = "JObj (replaceValue ''emails'' (JArr (f' # os)) ps)"
    from et have t_ne: "?t \<noteq> []"
      by (cases "inject_email_type (transforms cfg)") simp_all
    from p have wf: "wellFormed N (JObj ps)"
      by (rule P)
    from wf e have wf_e: "wellFormed N (JArr (f # os))"
      by (rule wellFormed_lookup)
    then have wf_f: "wellFormed N f"
      by simp
    have "wellFormed N (JStr ?t)"
      by simp
    with wf_f have "wellFormed N f'"
      using not_index_literals(8) a by (rule wellFormed_assignNamed)
    with wf_e have "wellFormed N (JArr (f' # os))"
      by simp
    with wf have wf': "wellFormed N ?v'"
      by (rule wellFormed_replaceValue)
    then have parse_y: "JSON_parse E y = Some (normalise ?v')"
      unfolding y by (rule RT)
    have emails_y: "getNamed (normalise ?v') ''emails''
                      = Some (JArr (normalise f' # map normalise os))"
    proof -
      from e have "''emails'' \<in> fst ` set ps"
        using map_of_eq_None_iff [of ps "''emails''"] by simp
      then show ?thesis
        by (simp add: map_of_normalised map_of_replaceValue)
    qed
    show ?thesis
    proof (cases f)
      case (JObj fs)
      with a have f': "f' = JObj (setProp fs ''type'' (JStr ?t))"
        by auto
      have "getNamed (normalise f') ''type'' = Some (JStr ?t)"
        by (simp add: f' map_of_normalised map_of_setProp)
      with t_ne have "truthy (getNamed (normalise f') ''type'')"
        by simp
      with parse_y emails_y et show ?thesis
        by (simp add: applyTransforms_def Let_def)
    next
      case (JArr xs)
      with a have f': "f' = f"
        by auto
      with e have same: "?v' = JObj ps"
        by (simp add: replaceValue_same)
      have again: "replaceValue ''emails'' (JArr (normalise f # map normalise os)) (map ?N ps)
                     = map ?N ps"
        using e by (intro replaceValue_same) (simp add: map_of_normalised)
      from wf have "JSON_stringify E (normalise (JObj ps)) = JSON_stringify E (JObj ps)"
        by (rule ST)
      with parse_y emails_y et y same f' JArr again show ?thesis
        by (simp add: applyTransforms_def Let_def)
    next
      case JNull
      with tf show ?thesis by simp
    next
      case (JBool b)
      with a show ?thesis by simp
    next
      case (JNum n)
      with a show ?thesis by simp
    next
      case (JStr s)
      with a show ?thesis by simp
    qed
  qed
qed

text \<open>Round-tripping asks nothing beyond the numbers of the runtime: no parsed number
  is outside \<open>N\<close>.\<close>

lemma roundTrips_numbers:
  "roundTrips N E \<Longrightarrow> JSON_parse E x = Some (JNum n) \<Longrightarrow> N n"
  unfolding roundTrips_def by fastforce

text \<open>
  Claim C6. Over a runtime whose \<open>JSON.parse\<close> and \<open>JSON.stringify\<close> round-trip on
  its own values, whatever its numbers \<open>N\<close> are, applying \<open>applyTransforms\<close> to its own
  result gives that result again, for every input text and every configuration; where
  the first application throws, so does the composition.
\<close>

theorem applyTransforms_idempotent:
  "roundTrips N E \<Longrightarrow>
   (case applyTransforms E x cfg of
      Inl err \<Rightarrow> Inl err
    | Inr y \<Rightarrow> applyTransforms E y cfg) = applyTransforms E x cfg"
  by (cases "applyTransforms E x cfg") (simp_all add: applyTransforms_output_fixed)


theorem applyTransforms_idempotent_witness:
  \<open>applyTransforms (demoEnv refusing) ''{"emails":[{"value":"a@b.com"}]}''
      (exampleConfig [] None (Some ''work''))
     = Inr ''{"emails":[{"value":"a@b.com","type":"work"}]}''
   \<and> applyTransforms (demoEnv refusing) ''{"emails":[{"value":"a@b.com","type":"work"}]}''
      (exampleConfig [] None (Some ''work''))
     = Inr ''{"emails":[{"value":"a@b.com","type":"work"}]}''\<close>
proof -
  have run: \<open>applyTransforms (demoEnv refusing) ''{"emails":[{"value":"a@b.com"}]}''
      (exampleConfig [] None (Some ''work''))
     = Inr ''{"emails":[{"value":"a@b.com","type":"work"}]}''\<close>
    by code_simp
  from applyTransforms_idempotent [OF roundTrips_demoEnv, where f1 = refusing
      and x = \<open>''{"emails":[{"value":"a@b.com"}]}''\<close>
      and cfg = "exampleConfig [] None (Some ''work'')"]
  show ?thesis
    by (simp add: run)
qed

end
